theory Spec2Isabelle
  imports
    Main
    "HOL-Library.Char_ord"
    "HOL-Library.List_Lexorder"
    "HOL-Library.Multiset"
    "HOL-Library.Sublist"
    "HOL-Library.Word"
begin

section \<open>Strings and dynamically typed values\<close>

text \<open>
  Go strings are byte sequences; \<^typ>\<open>string\<close> is a list of 8-bit characters, ordered
  bytewise (\<open>Char_ord\<close>) and lexicographically (\<open>List_Lexorder\<close>), which is the order of
  Go's \<open><\<close> on strings, of \<open>strings.Compare\<close> and of \<open>sort.Strings\<close>.

  Case conversion is modelled on ASCII letters, which is what \<open>strings.ToLower\<close> and
  \<open>strings.ToUpper\<close> do on ASCII input; bytes outside ASCII are left alone here.
\<close>

definition isUpper :: "char \<Rightarrow> bool" where
  "isUpper c = (CHR ''A'' \<le> c \<and> c \<le> CHR ''Z'')"

definition isLower :: "char \<Rightarrow> bool" where
  "isLower c = (CHR ''a'' \<le> c \<and> c \<le> CHR ''z'')"

definition isDigit :: "char \<Rightarrow> bool" where
  "isDigit c = (CHR ''0'' \<le> c \<and> c \<le> CHR ''9'')"

definition toLowerChar :: "char \<Rightarrow> char" where
  "toLowerChar c = (if isUpper c then char_of (of_char c + (32::nat)) else c)"

definition toUpperChar :: "char \<Rightarrow> char" where
  "toUpperChar c = (if isLower c then char_of (of_char c - (32::nat)) else c)"

definition ToLower :: "string \<Rightarrow> string" where
  "ToLower s = map toLowerChar s"

definition ToUpper :: "string \<Rightarrow> string" where
  "ToUpper s = map toUpperChar s"

text \<open>\<open>strings.Split(s, sep)\<close> for a one-byte separator: never empty, \<open>[""]\<close> for \<open>""\<close>.\<close>

fun Split :: "string \<Rightarrow> char \<Rightarrow> string list" where
  "Split [] sep = [[]]"
| "Split (c # cs) sep =
     (if c = sep then [] # Split cs sep
      else (c # hd (Split cs sep)) # tl (Split cs sep))"

text \<open>\<open>strings.Join(parts, sep)\<close>.\<close>

fun Join :: "string list \<Rightarrow> string \<Rightarrow> string" where
  "Join [] sep = []"
| "Join [p] sep = p"
| "Join (p # q # ps) sep = p @ sep @ Join (q # ps) sep"

text \<open>\<open>strings.TrimPrefix(s, p)\<close>.\<close>

definition TrimPrefix :: "string \<Rightarrow> string \<Rightarrow> string" where
  "TrimPrefix s p = (if prefix p s then drop (length p) s else s)"

text \<open>\<open>strings.Contains(s, sub)\<close>.\<close>

fun Contains :: "string \<Rightarrow> string \<Rightarrow> bool" where
  "Contains [] sub = (sub = [])"
| "Contains (c # cs) sub = (prefix sub (c # cs) \<or> Contains cs sub)"

text \<open>\<open>strings.Replace(s, ".*", "%", -1)\<close>: every occurrence, leftmost first, not overlapping.\<close>

fun ReplaceDotStar :: "string \<Rightarrow> string" where
  "ReplaceDotStar (c # d # cs) =
     (if c = CHR ''.'' \<and> d = CHR ''*'' then CHR ''%'' # ReplaceDotStar cs
      else c # ReplaceDotStar (d # cs))"
| "ReplaceDotStar cs = cs"

text \<open>Decimal rendering, as \<open>strconv.FormatUint(n, 10)\<close> and \<open>strconv.FormatInt(i, 10)\<close>.\<close>

fun decimal :: "nat \<Rightarrow> string" where
  "decimal n =
     (if n < 10 then [char_of (48 + n)]
      else decimal (n div 10) @ [char_of (48 + n mod 10)])"

declare decimal.simps [simp del]

definition FormatUint :: "64 word \<Rightarrow> string" where
  "FormatUint w = decimal (unat w)"

definition FormatInt :: "int \<Rightarrow> string" where
  "FormatInt i = (if i < 0 then CHR ''-'' # decimal (nat (- i)) else decimal (nat i))"

text \<open>
  The value returned by \<open>strconv.ParseInt(s, 10, 64)\<close>; callers here discard its error.
  A syntax error gives 0, a value out of range is clamped to the nearest bound.
\<close>

definition digitsValue :: "string \<Rightarrow> nat" where
  "digitsValue ds = foldl (\<lambda>acc c. acc * 10 + (of_char c - 48)) 0 ds"

definition ParseInt :: "string \<Rightarrow> int" where
  "ParseInt s =
     (let neg = (s \<noteq> [] \<and> hd s = CHR ''-'');
          ds = (if s \<noteq> [] \<and> (hd s = CHR ''+'' \<or> hd s = CHR ''-'') then tl s else s)
      in if ds = [] \<or> \<not> list_all isDigit ds then 0
         else let un = digitsValue ds
              in if \<not> neg \<and> un \<ge> 2 ^ 63 then 2 ^ 63 - 1
                 else if neg \<and> un > 2 ^ 63 then - (2 ^ 63)
                 else if neg then - int un else int un)"

text \<open>
  A value of type \<open>interface{}\<close>, by dynamic type. \<open>VOther\<close> stands for every dynamic type
  the code does not name in a type switch and carries the value's \<open>%v\<close> rendering.
  An \<open>int64\<close> is a 64-bit word read with \<^const>\<open>sint\<close>, a \<open>uint64\<close> one read with \<^const>\<open>unat\<close>.
\<close>

datatype Value =
    VBool bool
  | VString string
  | VInt64 "64 word"
  | VUint64 "64 word"
  | VOther string

datatype error =
    ErrUnknownSchema
  | ErrUnknownColumn
  | ErrUnknownEnum
  | ErrUnknownEnumKey
  | ErrUnknownLanguage
  | ErrUnknownTranslation
  | UnresolvableSchemaError string
  | ErrorString string
  | Panic string
  | PanicWith error

section \<open>Package tableaux: order directions and filter modes\<close>

type_synonym Order = string
type_synonym FilterMode = string

definition OrderAsc :: Order where "OrderAsc = ''ASC''"
definition OrderDesc :: Order where "OrderDesc = ''DESC''"

definition Reverse :: "Order \<Rightarrow> Order" where
  "Reverse order = (if order = OrderAsc then OrderDesc else OrderAsc)"

definition FilterEquals :: FilterMode where "FilterEquals = ''EQUALS''"
definition FilterGreater :: FilterMode where "FilterGreater = ''GREATER''"
definition FilterGreaterEquals :: FilterMode where "FilterGreaterEquals = ''GREATER_EQUALS''"
definition FilterLesser :: FilterMode where "FilterLesser = ''LESSER''"
definition FilterLesserEquals :: FilterMode where "FilterLesserEquals = ''LESSER_EQUALS''"
definition FilterNotEquals :: FilterMode where "FilterNotEquals = ''NOT_EQUALS''"

section \<open>Package filter: operators and filter strategies\<close>

type_synonym Operator = string

definition OperatorLike :: Operator where "OperatorLike = ''LIKE''"
definition OperatorNotLike :: Operator where "OperatorNotLike = ''NOT LIKE''"
definition OperatorEqual :: Operator where "OperatorEqual = ''=''"
definition OperatorNotEqual :: Operator where "OperatorNotEqual = ''!=''"
definition OperatorGreater :: Operator where "OperatorGreater = ''GREATER''"
definition OperatorGreaterEquals :: Operator where "OperatorGreaterEquals = ''GREATER_EQUALS''"
definition OperatorLesser :: Operator where "OperatorLesser = ''LESSER''"
definition OperatorLesserEquals :: Operator where "OperatorLesserEquals = ''LESSER_EQUALS''"

text \<open>\<open>Common.Operator\<close>: the switch over the filter mode; the value is ignored.\<close>

definition Common_Operator :: "Value \<Rightarrow> FilterMode \<Rightarrow> error + Operator" where
  "Common_Operator v filterMode =
     (if filterMode = FilterEquals then Inr OperatorEqual
      else if filterMode = FilterGreater then Inr OperatorGreater
      else if filterMode = FilterGreaterEquals then Inr OperatorGreaterEquals
      else if filterMode = FilterLesser then Inr OperatorLesser
      else if filterMode = FilterLesserEquals then Inr OperatorLesserEquals
      else if filterMode = FilterNotEquals then Inr OperatorNotEqual
      else Inl (ErrorString (''unknown filter mode '' @ filterMode)))"

text \<open>\<open>RegexString.Operator\<close>.\<close>

fun RegexString_Operator :: "Value \<Rightarrow> FilterMode \<Rightarrow> error + Operator" where
  "RegexString_Operator (VString stringVal) filterMode =
     (if Contains stringVal ''.*'' then
        (if filterMode = FilterEquals then Inr OperatorLike
         else if filterMode = FilterNotEquals then Inr OperatorNotLike
         else Common_Operator (VString stringVal) filterMode)
      else Common_Operator (VString stringVal) filterMode)"
| "RegexString_Operator v filterMode = Inl (ErrorString ''cannot cast to string'')"

text \<open>\<open>ParseValue\<close> of the four strategies. A \<open>panic\<close> is the error value \<^const>\<open>Panic\<close>.\<close>

fun Boolean_ParseValue :: "Value \<Rightarrow> error + string" where
  "Boolean_ParseValue (VBool boolean) = Inr (if boolean then ''true'' else ''false'')"
| "Boolean_ParseValue (VString booleanString) =
     Inr (if booleanString = ''1'' \<or> ToLower booleanString = ''true''
          then ''true'' else ''false'')"
| "Boolean_ParseValue v = Inl (Panic ''todo - cannot parse value!'')"

fun Numeric_ParseValue :: "Value \<Rightarrow> error + string" where
  "Numeric_ParseValue (VUint64 uint64Value) = Inr (FormatUint uint64Value)"
| "Numeric_ParseValue (VInt64 int64Value) = Inr (FormatInt (sint int64Value))"
| "Numeric_ParseValue (VString stringValue) = Inr (FormatInt (ParseInt stringValue))"
| "Numeric_ParseValue v = Inl (Panic ''todo - cannot parse value!'')"

text \<open>The single quote of SQL string literals; \<open>quoted s\<close> is \<open>fmt.Sprintf("'%s'", s)\<close>.\<close>

definition quote :: char where
  "quote = CHR 0x27"

definition quoted :: "string \<Rightarrow> string" where
  "quoted s = quote # s @ [quote]"

fun PlainString_ParseValue :: "Value \<Rightarrow> error + string" where
  "PlainString_ParseValue (VString stringVal) = Inr (quoted stringVal)"
| "PlainString_ParseValue v = Inl (Panic ''todo - cannot parse value!'')"

fun RegexString_ParseValue :: "Value \<Rightarrow> error + string" where
  "RegexString_ParseValue (VString stringVal) = Inr (quoted (ReplaceDotStar stringVal))"
| "RegexString_ParseValue v = Inl (Panic ''todo - cannot parse value!'')"

text \<open>
  The \<open>Filter\<close> interface with its four implementations (each embeds \<open>Common\<close>, so
  all but \<open>RegexString\<close> answer \<open>Operator\<close> with \<open>Common.Operator\<close>).
\<close>

datatype Filter = Boolean | PlainString | RegexString | Numeric

fun ParseValue :: "Filter \<Rightarrow> Value \<Rightarrow> error + string" where
  "ParseValue Boolean v = Boolean_ParseValue v"
| "ParseValue PlainString v = PlainString_ParseValue v"
| "ParseValue RegexString v = RegexString_ParseValue v"
| "ParseValue Numeric v = Numeric_ParseValue v"

fun Operator_of :: "Filter \<Rightarrow> Value \<Rightarrow> FilterMode \<Rightarrow> error + Operator" where
  "Operator_of RegexString v filterMode = RegexString_Operator v filterMode"
| "Operator_of f v filterMode = Common_Operator v filterMode"

section \<open>Package config: enums, translations, table schemas\<close>

text \<open>
  A Go map read by key is a partial function. \<open>m[k]\<close> on a \<open>map[string]string\<close> yields
  \<open>""\<close> for a key that is not there.
\<close>

definition index :: "(string \<rightharpoonup> string) \<Rightarrow> string \<Rightarrow> string" where
  "index m k = (case m k of None \<Rightarrow> [] | Some v \<Rightarrow> v)"

type_synonym LanguageCatalog = "string \<rightharpoonup> string"

text \<open>\<open>LanguageCatalog.Translate\<close>; the result is Go's pair of a string and an error (\<open>nil\<close> is \<open>None\<close>).\<close>

definition LanguageCatalog_Translate :: "LanguageCatalog \<Rightarrow> string \<Rightarrow> string \<times> error option" where
  "LanguageCatalog_Translate languageCatalog key =
     (if index languageCatalog key = [] then (''??'' @ key @ ''??'', Some ErrUnknownTranslation)
      else (index languageCatalog key, None))"

text \<open>
  \<open>Translator\<close>: the map from a language to its catalog. A language that is absent and one
  whose catalog is \<open>nil\<close> are both \<open>None\<close>: \<open>Translator.Language\<close> answers both with
  \<open>ErrUnknownLanguage\<close>.
\<close>

type_synonym Translator = "string \<rightharpoonup> LanguageCatalog"

definition Translator_Language :: "Translator \<Rightarrow> string \<Rightarrow> error + LanguageCatalog" where
  "Translator_Language translator language =
     (case translator language of None \<Rightarrow> Inl ErrUnknownLanguage | Some catalog \<Rightarrow> Inr catalog)"

definition Translator_Translate :: "Translator \<Rightarrow> string \<Rightarrow> string \<Rightarrow> string \<times> error option" where
  "Translator_Translate translator language key =
     (case Translator_Language translator language of
        Inl err \<Rightarrow> ([], Some err)
      | Inr languageCatalog \<Rightarrow> LanguageCatalog_Translate languageCatalog key)"

text \<open>
  \<open>Enum\<close> is a \<open>map[string]string\<close> that is also iterated (\<open>Entries\<close>), so it is an
  association list: looked up with \<^const>\<open>map_of\<close>, iterated in list order. Go fixes no
  iteration order, and a Go map has each key once; theorems about \<open>Entries\<close> therefore speak
  of every list with distinct keys.
\<close>

type_synonym Enum = "(string \<times> string) list"

record KeyWithTranslation =
  EnumKey :: string
  TranslationKey :: string

definition Enum_TranslationKey :: "Enum \<Rightarrow> string \<Rightarrow> string \<times> error option" where
  "Enum_TranslationKey enum key =
     (if index (map_of enum) key = [] then ([], Some ErrUnknownEnumKey)
      else (index (map_of enum) key, None))"

definition Entries :: "Enum \<Rightarrow> KeyWithTranslation list" where
  "Entries enum = map (\<lambda>(k, v). \<lparr>EnumKey = k, TranslationKey = v\<rparr>) enum"

text \<open>\<open>EnumMapper\<close>: absent and \<open>nil\<close> enums are both \<open>None\<close>, as \<open>EnumMapper.Enum\<close> treats them.\<close>

type_synonym EnumMapper = "string \<rightharpoonup> Enum"

definition EnumMapper_Enum :: "EnumMapper \<Rightarrow> string \<Rightarrow> error + Enum" where
  "EnumMapper_Enum enumMapper enum =
     (case enumMapper enum of None \<Rightarrow> Inl ErrUnknownEnum | Some e \<Rightarrow> Inr e)"

text \<open>Table schemas. \<open>Exclusions\<close> may be \<open>nil\<close> (\<open>None\<close>), which \<open>resolveColumns\<close> tests.\<close>

record TableSchemaColumn =
  Title :: string
  Path :: string
  Type :: string
  Filter :: string
  Order :: string
  PathResolver :: string
  FrontendHints :: "(string \<times> Value) list option"

record TableSchemaExtensionTable =
  ExtTitle :: string
  Table :: string
  Key :: string

record TableSchema =
  Entity :: string
  Extensions :: "TableSchemaExtensionTable list"
  Exclusions :: "string list option"
  Columns :: "TableSchemaColumn list"

record ResolvedTableSchema =
  originalSchema :: TableSchema
  columns :: "TableSchemaColumn list"
  columnsMap :: "string \<rightharpoonup> TableSchemaColumn"

definition Column :: "ResolvedTableSchema \<Rightarrow> string \<Rightarrow> error + TableSchemaColumn" where
  "Column resolvedTableSchema key =
     (case columnsMap resolvedTableSchema key of
        None \<Rightarrow> Inl ErrUnknownColumn
      | Some column \<Rightarrow> Inr column)"

text \<open>The zero value \<open>TableSchemaColumn{}\<close>, which \<open>make\<close> fills a fresh slice with.\<close>

definition zeroColumn :: TableSchemaColumn where
  "zeroColumn = \<lparr>Title = [], Path = [], Type = [], Filter = [], Order = [],
                  PathResolver = [], FrontendHints = None\<rparr>"

text \<open>
  \<open>resolveColumnWithPrefix\<close>: \<open>strings.Index(path, "_") + 1\<close> is 0 when the path has no
  underscore, so the whole path is kept then.
\<close>

definition afterFirstUnderscore :: "string \<Rightarrow> string" where
  "afterFirstUnderscore p =
     (if CHR ''_'' \<in> set p then tl (dropWhile (\<lambda>c. c \<noteq> CHR ''_'') p) else p)"

definition resolveColumnWithPrefix :: "TableSchemaColumn \<Rightarrow> string \<Rightarrow> TableSchemaColumn" where
  "resolveColumnWithPrefix column pre =
     column\<lparr>Path := (if pre \<noteq> [] then pre @ ''_'' @ afterFirstUnderscore (Path column)
                       else Path column)\<rparr>"

text \<open>
  \<open>resolveColumnsWithPrefix\<close> recurses through the extensions with no guard against a
  cycle, so it need not return. The model counts the depth of recursion down from a fuel;
  \<open>None\<close> means the fuel ran out. \<open>resolveExtensions\<close> is the loop over
  \<open>resolvableSchema.Extensions\<close>, with the columns gathered so far.
\<close>

definition extensionString :: "string \<Rightarrow> string \<Rightarrow> string \<Rightarrow> string" where
  "extensionString entity pre key =
     (let ext = (if pre \<noteq> [] then pre else entity)
      in if ext \<noteq> [] \<and> key \<noteq> [] then ext @ ''_'' @ key
         else if key \<noteq> [] then key
         else ext)"

fun resolveColumnsWithPrefix ::
      "nat \<Rightarrow> TableSchema \<Rightarrow> (string \<rightharpoonup> TableSchema) \<Rightarrow> string
         \<Rightarrow> (error + TableSchemaColumn list) option"
  and resolveExtensions ::
      "nat \<Rightarrow> string \<Rightarrow> (string \<rightharpoonup> TableSchema) \<Rightarrow> string
         \<Rightarrow> TableSchemaExtensionTable list \<Rightarrow> TableSchemaColumn list
         \<Rightarrow> (error + TableSchemaColumn list) option"
where
  "resolveColumnsWithPrefix 0 resolvableSchema allSchemas pre = None"
| "resolveColumnsWithPrefix (Suc fuel) resolvableSchema allSchemas pre =
     resolveExtensions fuel (Entity resolvableSchema) allSchemas pre
       (Extensions resolvableSchema)
       (map (\<lambda>column. resolveColumnWithPrefix column pre) (Columns resolvableSchema))"
| "resolveExtensions fuel entity allSchemas pre [] newColumns = Some (Inr newColumns)"
| "resolveExtensions fuel entity allSchemas pre (table # rest) newColumns =
     (case allSchemas (Table table) of
        None \<Rightarrow> Some (Inl (UnresolvableSchemaError (Table table)))
      | Some targetExtensionTable \<Rightarrow>
          (case resolveColumnsWithPrefix fuel targetExtensionTable allSchemas
                  (extensionString entity pre (Key table)) of
             None \<Rightarrow> None
           | Some (Inl err) \<Rightarrow> Some (Inl err)
           | Some (Inr resolvedColumns) \<Rightarrow>
               resolveExtensions fuel entity allSchemas pre rest (newColumns @ resolvedColumns)))"

text \<open>
  \<open>resolveDeletableColumns\<close> returns a set of paths (a map to \<open>struct{}\<close>): here the list
  of its keys, each once. A column is deletable when trimming some exclusion off its path
  changes the path.
\<close>

definition setAdd :: "string list \<Rightarrow> string \<Rightarrow> string list" where
  "setAdd keys k = (if k \<in> set keys then keys else keys @ [k])"

definition resolveDeletableColumns :: "TableSchemaColumn list \<Rightarrow> string list \<Rightarrow> string list" where
  "resolveDeletableColumns newColumns exclusions =
     foldl (\<lambda>deletableColumns column.
              if list_ex (\<lambda>exclusion. TrimPrefix (Path column) exclusion \<noteq> Path column) exclusions
              then setAdd deletableColumns (Path column)
              else deletableColumns)
       [] newColumns"

text \<open>
  \<open>resolveColumns\<close>. \<open>finalColumns\<close> is made with length
  \<open>len(newColumns) - len(deletableColumns)\<close> and filled from the front with the columns
  whose path is not deletable; slots left over keep the zero column, and a write past the
  end would panic.
\<close>

definition resolveColumns ::
    "nat \<Rightarrow> TableSchema \<Rightarrow> (string \<rightharpoonup> TableSchema) \<Rightarrow> (error + TableSchemaColumn list) option" where
  "resolveColumns fuel schema allSchemas =
     (case resolveColumnsWithPrefix fuel schema allSchemas [] of
        None \<Rightarrow> None
      | Some (Inl err) \<Rightarrow> Some (Inl err)
      | Some (Inr newColumns) \<Rightarrow>
          (case Exclusions schema of
             None \<Rightarrow> Some (Inr newColumns)
           | Some exclusions \<Rightarrow>
               (let deletableColumns = resolveDeletableColumns newColumns exclusions;
                    kept = filter (\<lambda>column. Path column \<notin> set deletableColumns) newColumns;
                    n = length newColumns - length deletableColumns
                in if length kept > n
                   then Some (Inl (Panic ''index out of range''))
                   else Some (Inr (kept @ replicate (n - length kept) zeroColumn)))))"

text \<open>
  \<open>mapSchemasToResolvedSchemas\<close>: the schemas are the entries of a Go map, here a list of
  pairs with \<^const>\<open>map_of\<close> for the lookups; the first failure ends the loop.
\<close>

definition columnsMapOf :: "TableSchemaColumn list \<Rightarrow> (string \<rightharpoonup> TableSchemaColumn)" where
  "columnsMapOf resolvedColumns =
     foldl (\<lambda>m column. m(Path column \<mapsto> column)) Map.empty resolvedColumns"

fun resolveAll ::
      "nat \<Rightarrow> (string \<rightharpoonup> TableSchema) \<Rightarrow> (string \<times> TableSchema) list
         \<Rightarrow> (error + (string \<times> ResolvedTableSchema) list) option" where
  "resolveAll fuel allSchemas [] = Some (Inr [])"
| "resolveAll fuel allSchemas ((table, schema) # rest) =
     (case resolveColumns fuel schema allSchemas of
        None \<Rightarrow> None
      | Some (Inl err) \<Rightarrow> Some (Inl err)
      | Some (Inr resolvedColumns) \<Rightarrow>
          (case resolveAll fuel allSchemas rest of
             None \<Rightarrow> None
           | Some (Inl err) \<Rightarrow> Some (Inl err)
           | Some (Inr resolvedSchemas) \<Rightarrow>
               Some (Inr ((table, \<lparr>originalSchema = schema, columns = resolvedColumns,
                                     columnsMap = columnsMapOf resolvedColumns\<rparr>)
                          # resolvedSchemas))))"

definition mapSchemasToResolvedSchemas ::
    "nat \<Rightarrow> (string \<times> TableSchema) list \<Rightarrow> (error + (string \<times> ResolvedTableSchema) list) option" where
  "mapSchemasToResolvedSchemas fuel schemas = resolveAll fuel (map_of schemas) schemas"

section \<open>Package util: descriptors and identifiers\<close>

text \<open>
  \<open>DescriptorToIdentifier\<close> replaces each match of the regular expression \<open>([A-Z].+?)\<close> by
  an underscore and the match, then lower-cases. A match is an upper-case letter and the one
  character after it (the lazy \<open>.+?\<close> takes a single character; \<open>.\<close> does not match a line
  feed); matches are found left to right and do not overlap. Characters are taken to be
  single bytes, as they are in ASCII paths.
\<close>

fun insertUnderscores :: "string \<Rightarrow> string" where
  "insertUnderscores (c # d # cs) =
     (if isUpper c \<and> d \<noteq> CHR 0x0A then CHR ''_'' # c # d # insertUnderscores cs
      else c # insertUnderscores (d # cs))"
| "insertUnderscores cs = cs"

definition DescriptorToIdentifier :: "string \<Rightarrow> string" where
  "DescriptorToIdentifier descriptor = ToLower (insertUnderscores descriptor)"

text \<open>
  \<open>IdentifierToDescriptor\<close> replaces each match of \<open>(_[a-z])\<close> by the upper-cased match with
  its underscore trimmed off.
\<close>

fun IdentifierToDescriptor :: "string \<Rightarrow> string" where
  "IdentifierToDescriptor (c # d # cs) =
     (if c = CHR ''_'' \<and> isLower d then toUpperChar d # IdentifierToDescriptor cs
      else c # IdentifierToDescriptor (d # cs))"
| "IdentifierToDescriptor cs = cs"

section \<open>Package path: path resolvers\<close>

definition SimpleResolver_ResolvePathName :: "TableSchemaColumn \<Rightarrow> string" where
  "SimpleResolver_ResolvePathName columnSchema =
     (let pathParts = Split (Path columnSchema) CHR ''_''
      in if length pathParts > 1
         then DescriptorToIdentifier (Join (butlast pathParts) ''_'' @ ''.'' @ last pathParts)
         else hd pathParts)"

definition SizeResolver_ResolvePathName :: "TableSchemaColumn \<Rightarrow> string" where
  "SizeResolver_ResolvePathName columnSchema =
     DescriptorToIdentifier (Path columnSchema @ ''.'' @ ''count_result'')"

section \<open>Package order: sorters\<close>

text \<open>
  \<open>sort.Slice(keys, less)\<close>. For up to 12 elements Go runs an insertion sort: element \<open>i\<close>
  is swapped down while \<open>less(j, j - 1)\<close> holds. \<open>sink\<close> is that inner loop on the sorted
  front part, kept in reverse. Longer slices are sorted by a quicksort, which gives the same
  slice whenever the comparison orders any two different elements strictly and linearly, and
  the theorems below ask for that.
\<close>

fun sink :: "('a \<Rightarrow> 'a \<Rightarrow> bool) \<Rightarrow> 'a list \<Rightarrow> 'a \<Rightarrow> 'a list" where
  "sink lt [] x = [x]"
| "sink lt (y # ys) x = (if lt x y then y # sink lt ys x else x # y # ys)"

definition sortSlice :: "('a \<Rightarrow> 'a \<Rightarrow> bool) \<Rightarrow> 'a list \<Rightarrow> 'a list" where
  "sortSlice lt keys = rev (foldl (sink lt) [] keys)"

record ResolvedOrder =
  RPath :: string
  Dir :: Order
  SortKeys :: "Value list option"

definition Direct_OrderColumn ::
    "string \<Rightarrow> TableSchemaColumn \<Rightarrow> Order \<Rightarrow> string \<Rightarrow> error + ResolvedOrder" where
  "Direct_OrderColumn path column sortOrder locale =
     Inr \<lparr>RPath = path, Dir = sortOrder, SortKeys = None\<rparr>"

definition entriesSortedByKey :: "Enum \<Rightarrow> KeyWithTranslation list" where
  "entriesSortedByKey enum = sortSlice (\<lambda>a b. EnumKey a < EnumKey b) (Entries enum)"

text \<open>The comparison logs a failed translation and goes on with the string it got.\<close>

definition translated :: "Translator \<Rightarrow> string \<Rightarrow> string \<Rightarrow> KeyWithTranslation \<Rightarrow> string" where
  "translated translator locale translationSuffix entry =
     fst (Translator_Translate translator locale (TranslationKey entry @ translationSuffix))"

definition entriesSortedByTranslationWithSuffix ::
    "Translator \<Rightarrow> Enum \<Rightarrow> string \<Rightarrow> string \<Rightarrow> bool \<Rightarrow> KeyWithTranslation list" where
  "entriesSortedByTranslationWithSuffix translator enum locale translationSuffix reverse =
     sortSlice (\<lambda>a b. reverse \<noteq> (translated translator locale translationSuffix a
                                   < translated translator locale translationSuffix b))
       (Entries enum)"

definition entriesAreTheSame :: "KeyWithTranslation list \<Rightarrow> KeyWithTranslation list \<Rightarrow> bool" where
  "entriesAreTheSame a b = (length a = length b \<and> list_all (\<lambda>(val, other). val = other) (zip a b))"

definition orderColumnWithSortFunction ::
    "EnumMapper \<Rightarrow> string \<Rightarrow> TableSchemaColumn \<Rightarrow> Order \<Rightarrow> string
       \<Rightarrow> (Enum \<Rightarrow> string \<Rightarrow> bool \<Rightarrow> KeyWithTranslation list) \<Rightarrow> error + ResolvedOrder" where
  "orderColumnWithSortFunction mapper path column direction locale sortFn =
     (case EnumMapper_Enum mapper (Type column) of
        Inl err \<Rightarrow> Inl err
      | Inr enum \<Rightarrow>
          (let originalEntries = entriesSortedByKey enum;
               sortedEntries = sortFn enum locale False
           in if entriesAreTheSame originalEntries sortedEntries
              then Direct_OrderColumn path column direction locale
              else if entriesAreTheSame originalEntries (sortFn enum locale True)
              then Direct_OrderColumn path column (Reverse direction) locale
              else Inr \<lparr>RPath = path, Dir = direction,
                        SortKeys = Some (map (\<lambda>entry. VString (EnumKey entry)) sortedEntries)\<rparr>))"

text \<open>The \<open>Sorter\<close> interface: the direct sorter and the three enum sorters with their suffix.\<close>

datatype Sorter =
    Direct
  | EnumSorter EnumMapper Translator
  | ShortEnumSorter EnumMapper Translator
  | LongEnumSorter EnumMapper Translator

fun Sorter_OrderColumn ::
    "Sorter \<Rightarrow> string \<Rightarrow> TableSchemaColumn \<Rightarrow> Order \<Rightarrow> string \<Rightarrow> error + ResolvedOrder" where
  "Sorter_OrderColumn Direct path column direction locale =
     Direct_OrderColumn path column direction locale"
| "Sorter_OrderColumn (EnumSorter mapper translator) path column direction locale =
     orderColumnWithSortFunction mapper path column direction locale
       (\<lambda>enum locale reverse. entriesSortedByTranslationWithSuffix translator enum locale [] reverse)"
| "Sorter_OrderColumn (ShortEnumSorter mapper translator) path column direction locale =
     orderColumnWithSortFunction mapper path column direction locale
       (\<lambda>enum locale reverse.
          entriesSortedByTranslationWithSuffix translator enum locale ''.short'' reverse)"
| "Sorter_OrderColumn (LongEnumSorter mapper translator) path column direction locale =
     orderColumnWithSortFunction mapper path column direction locale
       (\<lambda>enum locale reverse.
          entriesSortedByTranslationWithSuffix translator enum locale ''.long'' reverse)"

section \<open>Package datasource: requests\<close>

record datasource_Filter =
  filterMode :: FilterMode
  filterValue :: Value

record FilterGroup =
  groupPath :: string
  filters :: "datasource_Filter list"

record datasource_Order =
  orderPath :: string
  direction :: Order
  sortKeys :: "Value list"

section \<open>Package sqlsource: the common query builder\<close>

text \<open>
  The functions below are the methods of \<open>CommonQueryBuilder\<close>, the one implementation of
  the \<open>QueryBuilder\<close> interface in the sources; \<open>OrderColumn\<close> and \<open>FilterColumn\<close> are
  modelled with it as their query builder.
\<close>

definition CommonQueryBuilder_OrderColumn :: "string \<Rightarrow> Order \<Rightarrow> string" where
  "CommonQueryBuilder_OrderColumn path dir = path @ '' '' @ dir"

text \<open>The rendering of a value by the verb \<open>%v\<close>.\<close>

fun formatV :: "Value \<Rightarrow> string" where
  "formatV (VBool b) = (if b then ''true'' else ''false'')"
| "formatV (VString s) = s"
| "formatV (VInt64 w) = FormatInt (sint w)"
| "formatV (VUint64 w) = FormatUint w"
| "formatV (VOther rendering) = rendering"

fun whenCase :: "nat \<times> Value \<Rightarrow> string" where
  "whenCase (i, VString s) = ''WHEN '' @ quoted s @ '' THEN '' @ decimal i"
| "whenCase (i, v) = ''WHEN '' @ formatV v @ '' THEN '' @ decimal i"

definition CommonQueryBuilder_OrderColumnByArray :: "string \<Rightarrow> Value list \<Rightarrow> Order \<Rightarrow> string" where
  "CommonQueryBuilder_OrderColumnByArray path values dir =
     ''CASE '' @ path @ '' '' @ Join (map whenCase (enumerate 0 values)) '' ''
       @ '' ELSE -1 END '' @ dir"

definition CommonQueryBuilder_FilterStringFromValue :: "string \<Rightarrow> Operator \<Rightarrow> string \<Rightarrow> string" where
  "CommonQueryBuilder_FilterStringFromValue path operator v = path @ '' '' @ operator @ '' '' @ v"

text \<open>\<open>parseValues\<close>: the first value that does not parse panics.\<close>

fun parseValues :: "Filter \<Rightarrow> Value list \<Rightarrow> error + string list" where
  "parseValues f [] = Inr []"
| "parseValues f (v # vs) =
     (case ParseValue f v of
        Inl err \<Rightarrow> Inl err
      | Inr parsed \<Rightarrow>
          (case parseValues f vs of
             Inl err \<Rightarrow> Inl err
           | Inr parsedValues \<Rightarrow> Inr (parsed # parsedValues)))"

definition CommonQueryBuilder_FilterStringFromValues ::
    "string \<Rightarrow> Filter \<Rightarrow> Operator \<Rightarrow> Value list \<Rightarrow> error + string" where
  "CommonQueryBuilder_FilterStringFromValues path filtery operator values =
     (case parseValues filtery values of
        Inl err \<Rightarrow> Inl err
      | Inr parsedValues \<Rightarrow>
          if length values = 1
          then Inr (CommonQueryBuilder_FilterStringFromValue path operator (hd parsedValues))
          else if operator = OperatorEqual
          then Inr (path @ '' IN ('' @ Join parsedValues '','' @ '')'')
          else if operator = OperatorNotEqual
          then Inr (path @ '' NOT IN ('' @ Join parsedValues '','' @ '')'')
          else if operator = OperatorGreater \<or> operator = OperatorGreaterEquals
                  \<or> operator = OperatorLesser \<or> operator = OperatorLesserEquals
                  \<or> operator = OperatorLike
          then Inr (Join (map (CommonQueryBuilder_FilterStringFromValue path operator)
                              parsedValues) '' OR '')
          else Inl (ErrorString (''unknown operator '' @ operator)))"

text \<open>
  \<open>OrderColumn\<close>. \<open>sanitizeKeys\<close> is the loop that turns the sort keys into strings and
  bails out (\<open>None\<close>) at the first key that is no string, \<open>uint64\<close> or \<open>int64\<close>.
  \<open>sort.Sort\<close> on a \<open>sort.StringSlice\<close> is \<^const>\<open>sort\<close>: strings are linearly ordered, so
  there is one sorted arrangement.

  When the keys are not in ascending order the code evaluates
  \<open>sort.Reverse(sortedEntries).(sort.StringSlice)\<close>. \<open>sort.Reverse\<close> returns a
  \<open>*sort.reverse\<close> wrapped as a \<open>sort.Interface\<close>, so this type assertion to the concrete type
  \<open>sort.StringSlice\<close> fails, and in its one-result form a failed assertion panics. Nothing
  after it in that branch is ever reached.
\<close>

fun sanitize :: "Value \<Rightarrow> string option" where
  "sanitize (VString converted) = Some converted"
| "sanitize (VUint64 converted) = Some (FormatUint converted)"
| "sanitize (VInt64 converted) = Some (FormatInt (sint converted))"
| "sanitize v = None"

fun sanitizeKeys :: "Value list \<Rightarrow> string list option" where
  "sanitizeKeys [] = Some []"
| "sanitizeKeys (v # vs) =
     (case sanitize v of
        None \<Rightarrow> None
      | Some k \<Rightarrow> (case sanitizeKeys vs of None \<Rightarrow> None | Some ks \<Rightarrow> Some (k # ks)))"

definition stringSlicesEqual :: "string list \<Rightarrow> string list \<Rightarrow> bool" where
  "stringSlicesEqual a b = (length a = length b \<and> list_all (\<lambda>(val, other). val = other) (zip a b))"

definition OrderColumn ::
    "string \<Rightarrow> TableSchemaColumn \<Rightarrow> Sorter \<Rightarrow> datasource_Order \<Rightarrow> string \<Rightarrow> error + string" where
  "OrderColumn path column sorter order locale =
     (let predefinedSortKeys = sortKeys order
      in case (if length predefinedSortKeys > 0 then sanitizeKeys predefinedSortKeys else None) of
           Some sanitizedKeys \<Rightarrow>
             (let sortedEntries = sort sanitizedKeys
              in if stringSlicesEqual sanitizedKeys sortedEntries
                 then Inr (CommonQueryBuilder_OrderColumn path (direction order))
                 else Inl (Panic (''interface conversion: sort.Interface is *sort.reverse, ''
                                  @ ''not sort.StringSlice'')))
         | None \<Rightarrow>
             (case Sorter_OrderColumn sorter path column (direction order) locale of
                Inl err \<Rightarrow> Inl (PanicWith err)
              | Inr orderRequest \<Rightarrow>
                  (case SortKeys orderRequest of
                     Some keys \<Rightarrow>
                       Inr (CommonQueryBuilder_OrderColumnByArray (RPath orderRequest) keys
                              (Dir orderRequest))
                   | None \<Rightarrow>
                       Inr (CommonQueryBuilder_OrderColumn (RPath orderRequest)
                              (Dir orderRequest)))))"

text \<open>
  \<open>FilterColumn\<close>. \<open>filterModeMap\<close> maps an operator to the values filtered with it, in
  the order of the filters; it is a list of buckets in the order the operators first appear.
  Go iterates the map in no fixed order, which matters for the text only when a group has
  more than one operator.
\<close>

definition bucketAdd ::
    "(Operator \<times> Value list) list \<Rightarrow> Operator \<Rightarrow> Value \<Rightarrow> (Operator \<times> Value list) list" where
  "bucketAdd filterModeMap operator v =
     (if operator \<in> fst ` set filterModeMap
      then map (\<lambda>(k, vs). if k = operator then (k, vs @ [v]) else (k, vs)) filterModeMap
      else filterModeMap @ [(operator, [v])])"

fun bucketFilters ::
    "Filter \<Rightarrow> (Operator \<times> Value list) list \<Rightarrow> datasource_Filter list
       \<Rightarrow> error + (Operator \<times> Value list) list" where
  "bucketFilters filtery filterModeMap [] = Inr filterModeMap"
| "bucketFilters filtery filterModeMap (filterGroupFilter # rest) =
     (case Operator_of filtery (filterValue filterGroupFilter) (filterMode filterGroupFilter) of
        Inl err \<Rightarrow> Inl err
      | Inr operator \<Rightarrow>
          bucketFilters filtery (bucketAdd filterModeMap operator (filterValue filterGroupFilter))
            rest)"

fun orFiltersOf ::
    "string \<Rightarrow> Filter \<Rightarrow> (Operator \<times> Value list) list \<Rightarrow> error + string list" where
  "orFiltersOf path filtery [] = Inr []"
| "orFiltersOf path filtery ((operator, values) # rest) =
     (case CommonQueryBuilder_FilterStringFromValues path filtery operator values of
        Inl err \<Rightarrow> Inl err
      | Inr orFilter \<Rightarrow>
          (case orFiltersOf path filtery rest of
             Inl err \<Rightarrow> Inl err
           | Inr orFilters \<Rightarrow> Inr (orFilter # orFilters)))"

fun andFiltersOf :: "string \<Rightarrow> Filter \<Rightarrow> FilterGroup list \<Rightarrow> error + string list" where
  "andFiltersOf path filtery [] = Inr []"
| "andFiltersOf path filtery (filterGroup # rest) =
     (case bucketFilters filtery [] (filters filterGroup) of
        Inl err \<Rightarrow> Inl err
      | Inr filterModeMap \<Rightarrow>
          (case orFiltersOf path filtery filterModeMap of
             Inl err \<Rightarrow> Inl err
           | Inr orFilters \<Rightarrow>
               (case andFiltersOf path filtery rest of
                  Inl err \<Rightarrow> Inl err
                | Inr andFilters \<Rightarrow> Inr (Join orFilters '' OR '' # andFilters))))"

definition FilterColumn :: "string \<Rightarrow> Filter \<Rightarrow> FilterGroup list \<Rightarrow> error + string" where
  "FilterColumn path filtery filterGroups =
     (case andFiltersOf path filtery filterGroups of
        Inl err \<Rightarrow> Inl err
      | Inr andFilters \<Rightarrow> Inr (Join andFilters '' AND ''))"

section \<open>Package sqlsource: planning in the handler\<close>

text \<open>
  \<open>mergedParticipatingPaths\<close> builds a set of paths as the keys of a map: here the list of
  keys, each once, in the order they were first put in. The loops that range over such a map
  run over this list; Go fixes no order, and \<open>calculatePathsForJoins\<close> sorts at the end.
\<close>

definition mergedParticipatingPaths ::
    "TableSchemaColumn list \<Rightarrow> datasource_Order list \<Rightarrow> FilterGroup list \<Rightarrow> string list" where
  "mergedParticipatingPaths cols orders filterGroups =
     foldl setAdd (foldl setAdd (foldl setAdd [] (map Path cols)) (map orderPath orders))
       (map groupPath filterGroups)"

text \<open>The body of the loop over the participating paths: the join paths one path asks for.\<close>

definition addJoinPaths :: "string list \<Rightarrow> string \<Rightarrow> string list" where
  "addJoinPaths joinPaths columnPath =
     (let pathParts = Split columnPath CHR ''_''
      in if length pathParts > 2
         then foldl setAdd joinPaths
                (map (\<lambda>i. Join (take i pathParts) ''_'') [2..<length pathParts])
         else joinPaths)"

definition calculatePathsForJoins ::
    "TableSchemaColumn list \<Rightarrow> datasource_Order list \<Rightarrow> FilterGroup list \<Rightarrow> string list" where
  "calculatePathsForJoins cols orders filterGroups =
     (let participatingPaths = mergedParticipatingPaths cols orders filterGroups
      in if length participatingPaths = 0 then []
         else sort (foldl addJoinPaths [] participatingPaths))"

text \<open>\<open>adviseDeferredLoading\<close>: the loop over the orders, with its three returns.\<close>

fun adviseDeferredLoading ::
    "TableSchemaColumn list \<Rightarrow> datasource_Order list \<Rightarrow> ResolvedTableSchema \<Rightarrow> bool" where
  "adviseDeferredLoading cols [] schema = False"
| "adviseDeferredLoading cols (columnOrder # rest) schema =
     (if length (Split (orderPath columnOrder) CHR ''_'') > 2 then True
      else case Column schema (orderPath columnOrder) of
             Inl err \<Rightarrow> False
           | Inr resolvedColumn \<Rightarrow>
               if PathResolver resolvedColumn = ''SizePathResolver'' then True
               else adviseDeferredLoading cols rest schema)"

section \<open>Notions used in the statements\<close>

text \<open>
  The join paths one participating path asks for: its prefixes of at least two segments
  that are shorter than the path itself.
\<close>

definition prefixesToJoin :: "string \<Rightarrow> string set" where
  "prefixesToJoin p =
     {Join (take i (Split p CHR ''_'')) ''_'' | i. 2 \<le> i \<and> i < length (Split p CHR ''_'')}"

text \<open>
  The two schemas of the repository's test files: \<open>companies\<close> extends
  \<open>subfolder/abstract_entity\<close> with an empty key and excludes one of its columns.
\<close>

definition companies :: TableSchema where
  "companies = \<lparr>Entity = ''company'',
     Extensions = [\<lparr>ExtTitle = ''columns.abstract.system'', Table = ''subfolder/abstract_entity'', Key = []\<rparr>],
     Exclusions = Some [''company_lastModificationDateUtc''],
     Columns = [zeroColumn\<lparr>Path := ''company_companyKey''\<rparr>, zeroColumn\<lparr>Path := ''company_name''\<rparr>]\<rparr>"

definition abstract_entity :: TableSchema where
  "abstract_entity = \<lparr>Entity = ''abstractEntity'', Extensions = [], Exclusions = None,
     Columns = [zeroColumn\<lparr>Path := ''abstractEntity_uuid''\<rparr>,
                zeroColumn\<lparr>Path := ''abstractEntity_createDateUtc''\<rparr>,
                zeroColumn\<lparr>Path := ''abstractEntity_lastModificationDateUtc''\<rparr>]\<rparr>"

text \<open>
  Strings of ASCII letters and underscores; strings in which every upper-case letter is
  directly followed by a lower-case letter or an underscore; strings in which no underscore
  is directly followed by a lower-case letter.
\<close>

definition isLetterOrUnderscore :: "char \<Rightarrow> bool" where
  "isLetterOrUnderscore c = (isUpper c \<or> isLower c \<or> c = CHR ''_'')"

fun capitalsFollowed :: "string \<Rightarrow> bool" where
  "capitalsFollowed (c # d # cs) =
     ((\<not> isUpper c \<or> isLower d \<or> d = CHR ''_'') \<and> capitalsFollowed (d # cs))"
| "capitalsFollowed [c] = (\<not> isUpper c)"
| "capitalsFollowed [] = True"

fun noUnderscoreBeforeLower :: "string \<Rightarrow> bool" where
  "noUnderscoreBeforeLower (c # d # cs) =
     ((c \<noteq> CHR ''_'' \<or> \<not> isLower d) \<and> noUnderscoreBeforeLower (d # cs))"
| "noUnderscoreBeforeLower cs = True"

text \<open>
  Counts used in the proofs: the capitals of a string, the matches of \<open>([A-Z].+?)\<close> that
  \<open>DescriptorToIdentifier\<close> replaces, and the matches of \<open>(_[a-z])\<close> that
  \<open>IdentifierToDescriptor\<close> replaces.
\<close>

definition capitals :: "string \<Rightarrow> nat" where
  "capitals s = length (filter isUpper s)"

fun insertions :: "string \<Rightarrow> nat" where
  "insertions (c # d # cs) =
     (if isUpper c \<and> d \<noteq> CHR 0x0A then Suc (insertions cs) else insertions (d # cs))"
| "insertions cs = 0"

fun contractions :: "string \<Rightarrow> nat" where
  "contractions (c # d # cs) =
     (if c = CHR ''_'' \<and> isLower d then Suc (contractions cs) else contractions (d # cs))"
| "contractions cs = 0"

definition startsLower :: "string \<Rightarrow> bool" where
  "startsLower r = (case r of [] \<Rightarrow> False | d # cs \<Rightarrow> isLower d)"

text \<open>
  Two small enum and translation stores: a \<open>Gender\<close> enum whose German translations sort
  in the reverse of its keys, and a \<open>Country\<close> enum with a single key.
\<close>

definition genderMapper :: EnumMapper where
  "genderMapper = [''Gender'' \<mapsto> [(''F'', ''enum.gender.f''), (''M'', ''enum.gender.m'')]]"

definition genderTranslator :: Translator where
  "genderTranslator =
     [''de'' \<mapsto> [''enum.gender.f'' \<mapsto> ''weiblich'', ''enum.gender.m'' \<mapsto> ''maennlich'']]"

definition countryMapper :: EnumMapper where
  "countryMapper = [''Country'' \<mapsto> [(''DE'', ''enum.country.de'')]]"

definition countryTranslator :: Translator where
  "countryTranslator = [''de'' \<mapsto> [''enum.country.de'' \<mapsto> ''Deutschland'']]"

text \<open>
  A resolved schema that knows \<open>company_name\<close> and the size column \<open>company_divisions\<close>.
\<close>

definition companySchema :: ResolvedTableSchema where
  "companySchema =
     \<lparr>originalSchema = \<lparr>Entity = ''company'', Extensions = [], Exclusions = None, Columns = []\<rparr>,
      columns = [],
      columnsMap = [''company_name'' \<mapsto> zeroColumn\<lparr>Path := ''company_name''\<rparr>,
                    ''company_divisions'' \<mapsto> zeroColumn\<lparr>Path := ''company_divisions'',
                                                    PathResolver := ''SizePathResolver''\<rparr>]\<rparr>"

section \<open>Evaluation rules\<close>

lemmas char_eval = char_of_def bit_Suc_0_iff isUpper_def isLower_def isDigit_def
  toLowerChar_def toUpperChar_def ToLower_def ToUpper_def quote_def quoted_def

text \<open>
  \<open>Split\<close> is evaluated by a rule that computes the split of the rest once.
\<close>

lemma Split_not_Nil: "Split s sep \<noteq> []"
  by (induction s) simp_all

lemma Split_Cons_eval:
  "Split (c # cs) sep =
     (case Split cs sep of
        [] \<Rightarrow> []
      | p # ps \<Rightarrow> if c = sep then [] # p # ps else (c # p) # ps)"
  using Split_not_Nil [of cs sep] by (cases "Split cs sep") simp_all

declare Split.simps(2) [simp del]

lemmas const_defs = OrderAsc_def OrderDesc_def FilterEquals_def FilterGreater_def
  FilterGreaterEquals_def FilterLesser_def FilterLesserEquals_def FilterNotEquals_def
  OperatorLike_def OperatorNotLike_def OperatorEqual_def OperatorNotEqual_def
  OperatorGreater_def OperatorGreaterEquals_def OperatorLesser_def OperatorLesserEquals_def

section \<open>Translations and enum keys that map to the empty string\<close>

text \<open>
  Claim C10. In a language catalog where a translation key is present but mapped to the
  empty string, \<open>Translate\<close> returns \<open>??key??\<close> with \<open>ErrUnknownTranslation\<close>, exactly what it
  returns for the catalog without that key; and \<open>Enum.TranslationKey\<close> returns
  \<open>ErrUnknownEnumKey\<close> for an enum key that maps to the empty string.
\<close>

theorem empty_entry_reads_as_missing:
  "(languageCatalog key = Some [] \<longrightarrow>
      LanguageCatalog_Translate languageCatalog key
        = (''??'' @ key @ ''??'', Some ErrUnknownTranslation)
      \<and> LanguageCatalog_Translate languageCatalog key
          = LanguageCatalog_Translate (languageCatalog(key := None)) key)
   \<and> (map_of enum k = Some [] \<longrightarrow> Enum_TranslationKey enum k = ([], Some ErrUnknownEnumKey))"
  by (simp add: LanguageCatalog_Translate_def Enum_TranslationKey_def index_def)

theorem empty_entry_reads_as_missing_witness:
  "[''enum.country.de'' \<mapsto> []] ''enum.country.de'' = Some []
   \<and> LanguageCatalog_Translate [''enum.country.de'' \<mapsto> []] ''enum.country.de''
       = (''??enum.country.de??'', Some ErrUnknownTranslation)
   \<and> map_of [(''DE'', [])] ''DE'' = Some []
   \<and> Enum_TranslationKey [(''DE'', [])] ''DE'' = ([], Some ErrUnknownEnumKey)"
  using empty_entry_reads_as_missing
    [of "[''enum.country.de'' \<mapsto> []]" "''enum.country.de''" "[(''DE'', [])]" "''DE''"]
  by simp

section \<open>Operators of the filter strategies\<close>

lemma Common_Operator_equality_modes:
  "Common_Operator v FilterEquals = Inr ''=''"
  "Common_Operator v FilterNotEquals = Inr ''!=''"
  by (simp_all add: Common_Operator_def const_defs)

lemma RegexString_Operator_like:
  assumes "Contains s ''.*''"
  shows "RegexString_Operator (VString s) FilterEquals = Inr ''LIKE''"
    and "RegexString_Operator (VString s) FilterNotEquals = Inr ''NOT LIKE''"
  using assms by (simp_all add: const_defs)

lemma RegexString_Operator_default:
  assumes "\<not> Contains s ''.*'' \<or> (mode \<noteq> FilterEquals \<and> mode \<noteq> FilterNotEquals)"
  shows "RegexString_Operator (VString s) mode = Common_Operator (VString s) mode"
  using assms by auto

text \<open>
  Claim C1. The default operator mapping is claimed to return the SQL operator texts
  \<open>=\<close>, \<open>!=\<close>, \<open>>\<close>, \<open>>=\<close>, \<open><\<close>, \<open><=\<close>. For the four comparison modes the constants of
  the code are the names of the modes instead, and they go into the predicate as they are:
  a filter \<open>GREATER 5\<close> on \<open>person_age\<close> compiles to \<open>person.age GREATER 5\<close>.
\<close>

theorem Common_Operator_comparison_modes:
  "Common_Operator v FilterGreater = Inr ''GREATER''
   \<and> Common_Operator v FilterGreaterEquals = Inr ''GREATER_EQUALS''
   \<and> Common_Operator v FilterLesser = Inr ''LESSER''
   \<and> Common_Operator v FilterLesserEquals = Inr ''LESSER_EQUALS''
   \<and> FilterColumn ''person.age'' Numeric
        [\<lparr>groupPath = ''person_age'',
          filters = [\<lparr>filterMode = FilterGreater, filterValue = VInt64 5\<rparr>]\<rparr>]
       = Inr ''person.age GREATER 5''"
  by (simp add: Common_Operator_def const_defs FilterColumn_def bucketAdd_def
        CommonQueryBuilder_FilterStringFromValues_def CommonQueryBuilder_FilterStringFromValue_def
        FormatInt_def decimal.simps char_eval)

section \<open>Parsing boolean filter values\<close>

lemma toLowerChar_eq_lower:
  assumes "isLower x"
  shows "toLowerChar c = x \<longleftrightarrow> c = x \<or> c = toUpperChar x"
proof (cases "isUpper c")
  case True
  have "of_char c + 32 = (of_char x :: nat) \<Longrightarrow> c = char_of (of_char x - (32::nat))"
    by (metis add_diff_cancel_right' char_of_char)
  with True assms show ?thesis
    unfolding toLowerChar_def toUpperChar_def isUpper_def isLower_def less_eq_char_def
    by (auto simp add: char_of_eq_iff take_bit_eq_mod)
next
  case False
  with assms show ?thesis
    unfolding toLowerChar_def toUpperChar_def isUpper_def isLower_def less_eq_char_def
    by (auto simp add: char_of_eq_iff take_bit_eq_mod)
qed

text \<open>The strings that \<open>strings.ToLower\<close> sends to \<open>true\<close>: its sixteen spellings.\<close>

lemma ToLower_eq_true:
  "ToLower s = ''true'' \<longleftrightarrow>
     (\<exists>a b c d. s = [a, b, c, d] \<and> (a = CHR ''t'' \<or> a = CHR ''T'') \<and> (b = CHR ''r'' \<or> b = CHR ''R'')
        \<and> (c = CHR ''u'' \<or> c = CHR ''U'') \<and> (d = CHR ''e'' \<or> d = CHR ''E''))"
proof -
  have low: "isLower CHR ''t''" "isLower CHR ''r''" "isLower CHR ''u''" "isLower CHR ''e''"
    by (simp_all add: isLower_def)
  have up: "toUpperChar CHR ''t'' = CHR ''T''" "toUpperChar CHR ''r'' = CHR ''R''"
    "toUpperChar CHR ''u'' = CHR ''U''" "toUpperChar CHR ''e'' = CHR ''E''"
    by (simp_all add: toUpperChar_def isLower_def char_of_def bit_Suc_0_iff)
  have t: "toLowerChar a = CHR ''t'' \<longleftrightarrow> a = CHR ''t'' \<or> a = CHR ''T''" for a
    using toLowerChar_eq_lower [OF low(1), of a] unfolding up .
  have r: "toLowerChar a = CHR ''r'' \<longleftrightarrow> a = CHR ''r'' \<or> a = CHR ''R''" for a
    using toLowerChar_eq_lower [OF low(2), of a] unfolding up .
  have u: "toLowerChar a = CHR ''u'' \<longleftrightarrow> a = CHR ''u'' \<or> a = CHR ''U''" for a
    using toLowerChar_eq_lower [OF low(3), of a] unfolding up .
  have e: "toLowerChar a = CHR ''e'' \<longleftrightarrow> a = CHR ''e'' \<or> a = CHR ''E''" for a
    using toLowerChar_eq_lower [OF low(4), of a] unfolding up .
  have "ToLower s = ''true'' \<longleftrightarrow>
     (\<exists>a b c d. s = [a, b, c, d] \<and> toLowerChar a = CHR ''t'' \<and> toLowerChar b = CHR ''r''
        \<and> toLowerChar c = CHR ''u'' \<and> toLowerChar d = CHR ''e'')"
    unfolding ToLower_def by (simp only: map_eq_Cons_conv map_is_Nil_conv) blast
  then show ?thesis
    by (simp only: t r u e)
qed

text \<open>
  Claim C9 says that \<open>Boolean.ParseValue\<close> is total and answers \<open>false\<close> for every value
  that is not accepted as true, also for a value that is neither a \<open>bool\<close> nor a \<open>string\<close>.
  The code panics on such a value, for instance on the \<open>int64\<close> 5.
\<close>

theorem Boolean_ParseValue_not_total:
  "Boolean_ParseValue (VInt64 5) = Inl (Panic ''todo - cannot parse value!'')
   \<and> Boolean_ParseValue (VInt64 5) \<noteq> Inr ''false''"
  by simp

text \<open>
  Claim C9, amended. \<open>Boolean.ParseValue\<close> returns \<open>true\<close> for the boolean true, for the
  string \<open>1\<close> and for a string that \<open>strings.ToLower\<close> sends to \<open>true\<close>; it returns \<open>false\<close>
  for the boolean false and for every other string; on a value that is neither a \<open>bool\<close> nor
  a \<open>string\<close> it panics.
\<close>

theorem Boolean_ParseValue_cases:
  "Boolean_ParseValue v =
     (if v = VBool True \<or> v = VString ''1'' \<or> (\<exists>s. v = VString s \<and> ToLower s = ''true'')
      then Inr ''true''
      else if (\<exists>b. v = VBool b) \<or> (\<exists>s. v = VString s) then Inr ''false''
      else Inl (Panic ''todo - cannot parse value!''))"
  by (cases v) auto

theorem Boolean_ParseValue_cases_witness:
  "Boolean_ParseValue (VString ''TrUe'') = Inr ''true''
   \<and> Boolean_ParseValue (VString ''yes'') = Inr ''false''
   \<and> Boolean_ParseValue (VOther ''3.5'') = Inl (Panic ''todo - cannot parse value!'')"
  using Boolean_ParseValue_cases [of "VString ''TrUe''"]
    Boolean_ParseValue_cases [of "VString ''yes''"]
    Boolean_ParseValue_cases [of "VOther ''3.5''"]
  by (simp add: char_eval)

section \<open>Join paths of a request\<close>

lemma set_setAdd: "set (setAdd ks k) = insert k (set ks)"
  by (auto simp add: setAdd_def)

lemma distinct_setAdd: "distinct ks \<Longrightarrow> distinct (setAdd ks k)"
  by (simp add: setAdd_def)

lemma set_foldl_setAdd: "set (foldl setAdd acc ks) = set acc \<union> set ks"
  by (induction ks arbitrary: acc) (auto simp add: set_setAdd)

lemma distinct_foldl_setAdd: "distinct acc \<Longrightarrow> distinct (foldl setAdd acc ks)"
  by (induction ks arbitrary: acc) (simp_all add: distinct_setAdd)

lemma set_addJoinPaths: "set (addJoinPaths joinPaths p) = set joinPaths \<union> prefixesToJoin p"
  by (auto simp add: addJoinPaths_def Let_def set_foldl_setAdd prefixesToJoin_def)

lemma distinct_addJoinPaths: "distinct joinPaths \<Longrightarrow> distinct (addJoinPaths joinPaths p)"
  by (simp add: addJoinPaths_def Let_def distinct_foldl_setAdd)

lemma set_foldl_addJoinPaths:
  "set (foldl addJoinPaths acc ps) = set acc \<union> (\<Union>p\<in>set ps. prefixesToJoin p)"
  by (induction ps arbitrary: acc) (auto simp add: set_addJoinPaths)

lemma distinct_foldl_addJoinPaths: "distinct acc \<Longrightarrow> distinct (foldl addJoinPaths acc ps)"
  by (induction ps arbitrary: acc) (simp_all add: distinct_addJoinPaths)

lemma set_mergedParticipatingPaths:
  "set (mergedParticipatingPaths cols orders filterGroups)
     = Path ` set cols \<union> orderPath ` set orders \<union> groupPath ` set filterGroups"
  by (simp add: mergedParticipatingPaths_def set_foldl_setAdd)

text \<open>
  The sorted list does not depend on the order in which Go ranges over the two maps: any
  two lists of the same keys sort to the same list.
\<close>

lemma sort_independent_of_iteration_order:
  fixes ks ks' :: "string list"
  assumes "mset ks' = mset ks"
  shows "sort ks' = sort ks"
  using assms by (simp add: properties_for_sort)

text \<open>
  Claim C4. For every request, the join paths computed for it are exactly the prefixes,
  of segment length 2 up to the length of the path less one, of its participating paths
  (the selected, ordered-by and filtered paths): every such prefix of a path of three or
  more segments is there, a path of two segments or fewer adds none, no join path occurs
  twice, and the list is sorted lexicographically.
\<close>

theorem calculatePathsForJoins_prefixes:
  "set (calculatePathsForJoins cols orders filterGroups)
     = {Join (take i (Split p CHR ''_'')) ''_'' | p i.
          p \<in> Path ` set cols \<union> orderPath ` set orders \<union> groupPath ` set filterGroups
          \<and> 2 \<le> i \<and> i < length (Split p CHR ''_'')}
   \<and> distinct (calculatePathsForJoins cols orders filterGroups)
   \<and> sorted (calculatePathsForJoins cols orders filterGroups)"
proof -
  let ?pp = "mergedParticipatingPaths cols orders filterGroups"
  let ?js = "calculatePathsForJoins cols orders filterGroups"
  have A: "set ?js = (\<Union>p\<in>set ?pp. prefixesToJoin p)"
  proof (cases "?pp = []")
    case True
    then show ?thesis by (simp add: calculatePathsForJoins_def)
  next
    case False
    then show ?thesis
      by (simp add: calculatePathsForJoins_def Let_def set_foldl_addJoinPaths)
  qed
  have B: "(\<Union>p\<in>set ?pp. prefixesToJoin p)
     = {Join (take i (Split p CHR ''_'')) ''_'' | p i.
          p \<in> Path ` set cols \<union> orderPath ` set orders \<union> groupPath ` set filterGroups
          \<and> 2 \<le> i \<and> i < length (Split p CHR ''_'')}"
    unfolding set_mergedParticipatingPaths prefixesToJoin_def by auto blast+
  have C: "distinct ?js"
    by (simp add: calculatePathsForJoins_def Let_def distinct_foldl_addJoinPaths)
  have D: "sorted ?js"
    by (simp add: calculatePathsForJoins_def Let_def)
  from A B C D show ?thesis by simp
qed

text \<open>The request of the specification's join planning scenario.\<close>

lemma calculatePathsForJoins_example:
  "calculatePathsForJoins
     [zeroColumn\<lparr>Path := ''organization_assignedPerson_supervisor_name''\<rparr>,
      zeroColumn\<lparr>Path := ''organization_name''\<rparr>] [] []
   = [''organization_assignedPerson'', ''organization_assignedPerson_supervisor'']"
  by (simp add: calculatePathsForJoins_def mergedParticipatingPaths_def setAdd_def
        addJoinPaths_def zeroColumn_def Split_Cons_eval)

section \<open>Ordering by predefined sort keys\<close>

lemma stringSlicesEqual_iff: "stringSlicesEqual a b \<longleftrightarrow> a = b"
  by (auto simp add: stringSlicesEqual_def list_all_iff list_eq_iff_zip_eq)

text \<open>Keys that are already in ascending order give the simple ordering.\<close>

lemma OrderColumn_ascending_keys:
  assumes "sortKeys order \<noteq> []" "sanitizeKeys (sortKeys order) = Some ks" "sort ks = ks"
  shows "OrderColumn path column sorter order locale = Inr (path @ '' '' @ direction order)"
  using assms
  by (simp add: OrderColumn_def Let_def stringSlicesEqual_iff CommonQueryBuilder_OrderColumn_def)

text \<open>Keys in any other order, descending or not, end in the failed type assertion.\<close>

lemma OrderColumn_unsorted_keys_panic:
  assumes "sortKeys order \<noteq> []" "sanitizeKeys (sortKeys order) = Some ks" "sort ks \<noteq> ks"
  shows "OrderColumn path column sorter order locale
         = Inl (Panic ''interface conversion: sort.Interface is *sort.reverse, not sort.StringSlice'')"
  using assms
  by (auto simp add: OrderColumn_def Let_def stringSlicesEqual_iff)

text \<open>
  Claim C5. For sort keys that all coerce to strings and are the reverse of their sorted
  order, \<open>OrderColumn\<close> is claimed to return the simple ordering with the direction reversed,
  without aborting. For the keys \<open>b\<close>, \<open>a\<close> on \<open>person_name\<close>, requested ascending, the code
  does not return \<open>person.name DESC\<close>: it panics in the type assertion on the result of
  \<open>sort.Reverse\<close>.
\<close>

theorem OrderColumn_descending_keys_panic:
  "sanitizeKeys [VString ''b'', VString ''a''] = Some [''b'', ''a'']
   \<and> sort [''b'', ''a''] = [''a'', ''b'']
   \<and> rev (sort [''b'', ''a'']) = [''b'', ''a'']
   \<and> OrderColumn ''person.name'' (zeroColumn\<lparr>Path := ''person_name''\<rparr>) Direct
        \<lparr>orderPath = ''person_name'', direction = OrderAsc,
          sortKeys = [VString ''b'', VString ''a'']\<rparr> ''de''
       = Inl (Panic ''interface conversion: sort.Interface is *sort.reverse, not sort.StringSlice'')"
  by (simp add: OrderColumn_def stringSlicesEqual_def)

section \<open>Advising deferred loading\<close>

text \<open>
  Claim C6 says that \<open>adviseDeferredLoading\<close> returns true if and only if some requested
  order path has more than two segments or resolves to a column with the size path
  resolver, whatever the other orders are. An order path of two segments that the schema
  does not know ends the loop with false: here the second order path has three segments,
  and the answer is false.
\<close>

theorem adviseDeferredLoading_unknown_column_first:
  "adviseDeferredLoading []
     [\<lparr>orderPath = ''company_pk'', direction = OrderAsc, sortKeys = []\<rparr>,
      \<lparr>orderPath = ''company_owner_name'', direction = OrderAsc, sortKeys = []\<rparr>]
     \<lparr>originalSchema = \<lparr>Entity = ''company'', Extensions = [], Exclusions = None, Columns = []\<rparr>,
      columns = [], columnsMap = Map.empty\<rparr>
   = False
   \<and> length (Split ''company_owner_name'' CHR ''_'') > 2"
  by (simp add: Column_def Split_Cons_eval)

lemma adviseDeferredLoading_after_resolved:
  assumes "\<forall>earlier\<in>set before. columnsMap schema (orderPath earlier) \<noteq> None"
    and "length (Split (orderPath columnOrder) CHR ''_'') > 2
         \<or> (\<exists>resolvedColumn.
               columnsMap schema (orderPath columnOrder) = Some resolvedColumn
               \<and> PathResolver resolvedColumn = ''SizePathResolver'')"
  shows "adviseDeferredLoading cols (before @ columnOrder # after) schema"
  using assms
proof (induction before)
  case Nil
  then show ?case by (auto simp add: Column_def)
next
  case (Cons earlier before)
  then show ?case by (auto simp add: Column_def)
qed

lemma adviseDeferredLoading_first_qualifying:
  assumes "adviseDeferredLoading cols orders schema"
  shows "\<exists>before columnOrder after.
           orders = before @ columnOrder # after
           \<and> (length (Split (orderPath columnOrder) CHR ''_'') > 2
                \<or> (\<exists>resolvedColumn.
                      columnsMap schema (orderPath columnOrder) = Some resolvedColumn
                      \<and> PathResolver resolvedColumn = ''SizePathResolver''))
           \<and> (\<forall>earlier\<in>set before. columnsMap schema (orderPath earlier) \<noteq> None)"
  using assms
proof (induction orders)
  case Nil
  then show ?case by simp
next
  case (Cons first rest)
  let ?qualifies = "\<lambda>columnOrder. length (Split (orderPath columnOrder) CHR ''_'') > 2
                \<or> (\<exists>resolvedColumn.
                      columnsMap schema (orderPath columnOrder) = Some resolvedColumn
                      \<and> PathResolver resolvedColumn = ''SizePathResolver'')"
  show ?case
  proof (cases "?qualifies first")
    case True
    then have "first # rest = [] @ first # rest \<and> ?qualifies first
               \<and> (\<forall>earlier\<in>set []. columnsMap schema (orderPath earlier) \<noteq> None)"
      by simp
    then show ?thesis by blast
  next
    case False
    with Cons.prems have known: "columnsMap schema (orderPath first) \<noteq> None"
      and rest: "adviseDeferredLoading cols rest schema"
      by (auto simp add: Column_def split: option.splits if_splits)
    from Cons.IH [OF rest] obtain before columnOrder after where
      d: "rest = before @ columnOrder # after" "?qualifies columnOrder"
         "\<forall>earlier\<in>set before. columnsMap schema (orderPath earlier) \<noteq> None"
      by blast
    then have "first # rest = (first # before) @ columnOrder # after \<and> ?qualifies columnOrder
               \<and> (\<forall>earlier\<in>set (first # before). columnsMap schema (orderPath earlier) \<noteq> None)"
      using known by simp
    then show ?thesis by blast
  qed
qed

text \<open>
  Claim C6, amended. \<open>adviseDeferredLoading\<close> returns true if and only if at least one
  requested order path has more than two segments or resolves to a column whose path
  resolver is \<open>SizePathResolver\<close>, and every order path requested before it resolves to a
  column of the schema. The order entries after it do not matter.
\<close>

theorem adviseDeferredLoading_exact:
  "adviseDeferredLoading cols orders schema \<longleftrightarrow>
     (\<exists>before columnOrder after.
        orders = before @ columnOrder # after
        \<and> (length (Split (orderPath columnOrder) CHR ''_'') > 2
             \<or> (\<exists>resolvedColumn.
                   columnsMap schema (orderPath columnOrder) = Some resolvedColumn
                   \<and> PathResolver resolvedColumn = ''SizePathResolver''))
        \<and> (\<forall>earlier\<in>set before. columnsMap schema (orderPath earlier) \<noteq> None))"
proof
  assume "adviseDeferredLoading cols orders schema"
  then show "\<exists>before columnOrder after.
        orders = before @ columnOrder # after
        \<and> (length (Split (orderPath columnOrder) CHR ''_'') > 2
             \<or> (\<exists>resolvedColumn.
                   columnsMap schema (orderPath columnOrder) = Some resolvedColumn
                   \<and> PathResolver resolvedColumn = ''SizePathResolver''))
        \<and> (\<forall>earlier\<in>set before. columnsMap schema (orderPath earlier) \<noteq> None)"
    by (rule adviseDeferredLoading_first_qualifying)
next
  assume "\<exists>before columnOrder after.
        orders = before @ columnOrder # after
        \<and> (length (Split (orderPath columnOrder) CHR ''_'') > 2
             \<or> (\<exists>resolvedColumn.
                   columnsMap schema (orderPath columnOrder) = Some resolvedColumn
                   \<and> PathResolver resolvedColumn = ''SizePathResolver''))
        \<and> (\<forall>earlier\<in>set before. columnsMap schema (orderPath earlier) \<noteq> None)"
  then obtain before columnOrder after where
    "orders = before @ columnOrder # after"
    "length (Split (orderPath columnOrder) CHR ''_'') > 2
             \<or> (\<exists>resolvedColumn.
                   columnsMap schema (orderPath columnOrder) = Some resolvedColumn
                   \<and> PathResolver resolvedColumn = ''SizePathResolver'')"
    "\<forall>earlier\<in>set before. columnsMap schema (orderPath earlier) \<noteq> None"
    by blast
  then show "adviseDeferredLoading cols orders schema"
    using adviseDeferredLoading_after_resolved [of before schema columnOrder cols after] by simp
qed

text \<open>
  A size column after a known column, and a path of three segments, both followed by an
  unknown path, advise deferred loading; the unknown path alone does not.
\<close>

theorem adviseDeferredLoading_exact_witness:
  "adviseDeferredLoading []
     [\<lparr>orderPath = ''company_name'', direction = OrderAsc, sortKeys = []\<rparr>,
      \<lparr>orderPath = ''company_divisions'', direction = OrderDesc, sortKeys = []\<rparr>,
      \<lparr>orderPath = ''company_pk'', direction = OrderAsc, sortKeys = []\<rparr>]
     companySchema
   \<and> adviseDeferredLoading []
     [\<lparr>orderPath = ''company_owner_name'', direction = OrderAsc, sortKeys = []\<rparr>,
      \<lparr>orderPath = ''company_pk'', direction = OrderAsc, sortKeys = []\<rparr>]
     companySchema
   \<and> \<not> adviseDeferredLoading []
     [\<lparr>orderPath = ''company_pk'', direction = OrderAsc, sortKeys = []\<rparr>]
     companySchema"
proof -
  let ?name = "\<lparr>orderPath = ''company_name'', direction = OrderAsc, sortKeys = []\<rparr>"
  let ?divisions = "\<lparr>orderPath = ''company_divisions'', direction = OrderDesc, sortKeys = []\<rparr>"
  let ?pk = "\<lparr>orderPath = ''company_pk'', direction = OrderAsc, sortKeys = []\<rparr>"
  let ?owner = "\<lparr>orderPath = ''company_owner_name'', direction = OrderAsc, sortKeys = []\<rparr>"
  let ?qualifies = "\<lambda>columnOrder. length (Split (orderPath columnOrder) CHR ''_'') > 2
                \<or> (\<exists>resolvedColumn.
                      columnsMap companySchema (orderPath columnOrder) = Some resolvedColumn
                      \<and> PathResolver resolvedColumn = ''SizePathResolver'')"
  have "[?name, ?divisions, ?pk] = [?name] @ ?divisions # [?pk] \<and> ?qualifies ?divisions
        \<and> (\<forall>earlier\<in>set [?name]. columnsMap companySchema (orderPath earlier) \<noteq> None)"
    by (simp add: companySchema_def zeroColumn_def)
  then have one: "adviseDeferredLoading [] [?name, ?divisions, ?pk] companySchema"
    unfolding adviseDeferredLoading_exact [of "[]" "[?name, ?divisions, ?pk]" companySchema]
    by blast
  have "[?owner, ?pk] = [] @ ?owner # [?pk] \<and> ?qualifies ?owner
        \<and> (\<forall>earlier\<in>set []. columnsMap companySchema (orderPath earlier) \<noteq> None)"
    by (simp add: Split_Cons_eval)
  then have two: "adviseDeferredLoading [] [?owner, ?pk] companySchema"
    unfolding adviseDeferredLoading_exact [of "[]" "[?owner, ?pk]" companySchema]
    by blast
  have three: "\<not> adviseDeferredLoading [] [?pk] companySchema"
    unfolding adviseDeferredLoading_exact [of "[]" "[?pk]" companySchema]
    by (auto simp add: append_eq_Cons_conv Cons_eq_append_conv companySchema_def Split_Cons_eval)
  from one two three show ?thesis by simp
qed


text \<open>
  In particular, for a request whose order paths of at most two segments all resolve, as
  request validation demands, the answer is true exactly when some order path has more
  than two segments or is a size column.
\<close>

lemma adviseDeferredLoading_when_short_paths_resolve:
  assumes "\<forall>columnOrder\<in>set orders.
             length (Split (orderPath columnOrder) CHR ''_'') \<le> 2
             \<longrightarrow> columnsMap schema (orderPath columnOrder) \<noteq> None"
  shows "adviseDeferredLoading cols orders schema \<longleftrightarrow>
           (\<exists>columnOrder\<in>set orders.
              length (Split (orderPath columnOrder) CHR ''_'') > 2
              \<or> (\<exists>resolvedColumn.
                    columnsMap schema (orderPath columnOrder) = Some resolvedColumn
                    \<and> PathResolver resolvedColumn = ''SizePathResolver''))"
  using assms
proof (induction orders)
  case Nil
  then show ?case by simp
next
  case (Cons columnOrder rest)
  then show ?case
    by (cases "columnsMap schema (orderPath columnOrder)") (auto simp add: Column_def)
qed

section \<open>Compiling a filter group\<close>

lemma Operator_of_equals:
  assumes "filtery = RegexString \<longrightarrow> (\<exists>s. v = VString s \<and> \<not> Contains s ''.*'')"
  shows "Operator_of filtery v FilterEquals = Inr OperatorEqual"
  using assms by (cases filtery) (auto simp add: Common_Operator_def)

lemma bucketAdd_same:
  "bucketAdd [(operator, vs)] operator v = [(operator, vs @ [v])]"
  by (simp add: bucketAdd_def)

lemma bucketFilters_one_operator:
  assumes "\<forall>f\<in>set fs. Operator_of filtery (filterValue f) (filterMode f) = Inr operator"
  shows "bucketFilters filtery [(operator, vs)] fs = Inr [(operator, vs @ map filterValue fs)]"
  using assms by (induction fs arbitrary: vs) (simp_all add: bucketAdd_same)

lemma bucketFilters_one_operator_start:
  assumes "\<forall>f\<in>set fs. Operator_of filtery (filterValue f) (filterMode f) = Inr operator"
    and "fs \<noteq> []"
  shows "bucketFilters filtery [] fs = Inr [(operator, map filterValue fs)]"
proof (cases fs)
  case Nil
  with assms show ?thesis by simp
next
  case (Cons f rest)
  with assms have "bucketFilters filtery [] fs = bucketFilters filtery [(operator, [filterValue f])] rest"
    by (simp add: bucketAdd_def)
  also have "\<dots> = Inr [(operator, [filterValue f] @ map filterValue rest)]"
    using assms Cons by (intro bucketFilters_one_operator) simp
  finally show ?thesis using Cons by simp
qed

text \<open>
  Claim C8, amended. For a filter group whose filters all have mode \<open>EQUALS\<close>, whose
  \<open>n \<ge> 2\<close> values parse under the column's filter strategy and, where the strategy is
  \<open>RegexString\<close>, contain no \<open>.*\<close>, the compiled predicate is
  \<open>resolvedPath IN (v1,...,vn)\<close> with the parsed values in filter order.
\<close>

theorem FilterColumn_equals_group:
  assumes "2 \<le> length fs"
    and "\<forall>f\<in>set fs. filterMode f = FilterEquals"
    and "parseValues filtery (map filterValue fs) = Inr parsedValues"
    and "filtery = RegexString \<longrightarrow>
           (\<forall>f\<in>set fs. \<forall>s. filterValue f = VString s \<longrightarrow> \<not> Contains s ''.*'')"
  shows "FilterColumn resolvedPath filtery [\<lparr>groupPath = p, filters = fs\<rparr>]
         = Inr (resolvedPath @ '' IN ('' @ Join parsedValues '','' @ '')'')"
proof -
  have strings: "\<exists>s. filterValue f = VString s" if "f \<in> set fs" "filtery = RegexString" for f
  proof -
    from assms(3) that(1) have "\<exists>parsed. ParseValue filtery (filterValue f) = Inr parsed"
    proof (induction fs arbitrary: parsedValues)
      case Nil
      then show ?case by simp
    next
      case (Cons g gs)
      then show ?case by (auto split: sum.splits)
    qed
    with that(2) show ?thesis by (cases "filterValue f") auto
  qed
  have ops: "\<forall>f\<in>set fs. Operator_of filtery (filterValue f) (filterMode f) = Inr OperatorEqual"
  proof
    fix f
    assume f: "f \<in> set fs"
    have "filtery = RegexString \<longrightarrow> (\<exists>s. filterValue f = VString s \<and> \<not> Contains s ''.*'')"
      using strings [OF f] assms(4) f by blast
    then show "Operator_of filtery (filterValue f) (filterMode f) = Inr OperatorEqual"
      using assms(2) f by (simp add: Operator_of_equals)
  qed
  from assms(1) have ne: "fs \<noteq> []" by auto
  have buckets: "bucketFilters filtery [] fs = Inr [(OperatorEqual, map filterValue fs)]"
    using bucketFilters_one_operator_start [OF ops ne] .
  have one: "CommonQueryBuilder_FilterStringFromValues resolvedPath filtery OperatorEqual
               (map filterValue fs)
             = Inr (resolvedPath @ '' IN ('' @ Join parsedValues '','' @ '')'')"
    using assms(1,3) by (simp add: CommonQueryBuilder_FilterStringFromValues_def)
  show ?thesis
    by (simp add: FilterColumn_def buckets one)
qed

text \<open>
  The scenario of the specification: the \<open>Numeric\<close> strategy on \<open>company_companyKey\<close>,
  resolved by the simple path resolver, with the values 1, 2, 3.
\<close>

theorem FilterColumn_equals_group_witness:
  "FilterColumn
     (SimpleResolver_ResolvePathName (zeroColumn\<lparr>Path := ''company_companyKey''\<rparr>)) Numeric
     [\<lparr>groupPath = ''company_companyKey'',
       filters = [\<lparr>filterMode = FilterEquals, filterValue = VInt64 1\<rparr>,
                  \<lparr>filterMode = FilterEquals, filterValue = VInt64 2\<rparr>,
                  \<lparr>filterMode = FilterEquals, filterValue = VInt64 3\<rparr>]\<rparr>]
   = Inr ''company.company_key IN (1,2,3)''"
proof -
  have path: "SimpleResolver_ResolvePathName (zeroColumn\<lparr>Path := ''company_companyKey''\<rparr>)
              = ''company.company_key''"
    by (simp add: SimpleResolver_ResolvePathName_def zeroColumn_def Split_Cons_eval
          DescriptorToIdentifier_def char_eval)
  have parsed: "parseValues Numeric
      (map filterValue [\<lparr>filterMode = FilterEquals, filterValue = VInt64 1\<rparr>,
                  \<lparr>filterMode = FilterEquals, filterValue = VInt64 2\<rparr>,
                  \<lparr>filterMode = FilterEquals, filterValue = VInt64 3\<rparr>]) = Inr [''1'', ''2'', ''3'']"
    by (simp add: FormatInt_def decimal.simps char_eval)
  show ?thesis
    using FilterColumn_equals_group [of
      "[\<lparr>filterMode = FilterEquals, filterValue = VInt64 1\<rparr>,
                  \<lparr>filterMode = FilterEquals, filterValue = VInt64 2\<rparr>,
                  \<lparr>filterMode = FilterEquals, filterValue = VInt64 3\<rparr>]"
      Numeric "[''1'', ''2'', ''3'']" "''company.company_key''" "''company_companyKey''", OF _ _ parsed]
    by (simp add: path)
qed

text \<open>
  Claim C8 says that every filter group whose filters all have mode \<open>EQUALS\<close> and whose
  \<open>n \<ge> 2\<close> values parse compiles to \<open>resolvedPath IN (v1,...,vn)\<close>. Under the
  \<open>RegexString\<close> strategy the values \<open>a.*\<close> and \<open>b.*\<close> parse, their operator is
  \<open>LIKE\<close>, and the predicate is a chain of \<open>LIKE\<close> comparisons joined by \<open>OR\<close>.
\<close>

theorem FilterColumn_regex_equals_group:
  "parseValues RegexString [VString ''a.*'', VString ''b.*''] = Inr [quoted ''a%'', quoted ''b%'']
   \<and> FilterColumn ''company.name'' RegexString
        [\<lparr>groupPath = ''company_name'',
          filters = [\<lparr>filterMode = FilterEquals, filterValue = VString ''a.*''\<rparr>,
                     \<lparr>filterMode = FilterEquals, filterValue = VString ''b.*''\<rparr>]\<rparr>]
       = Inr (''company.name LIKE '' @ quoted ''a%'' @ '' OR company.name LIKE '' @ quoted ''b%'')
   \<and> FilterColumn ''company.name'' RegexString
        [\<lparr>groupPath = ''company_name'',
          filters = [\<lparr>filterMode = FilterEquals, filterValue = VString ''a.*''\<rparr>,
                     \<lparr>filterMode = FilterEquals, filterValue = VString ''b.*''\<rparr>]\<rparr>]
       \<noteq> Inr (''company.name IN ('' @ Join [quoted ''a%'', quoted ''b%''] '','' @ '')'')"
  by (simp add: FilterColumn_def bucketAdd_def const_defs
        CommonQueryBuilder_FilterStringFromValues_def CommonQueryBuilder_FilterStringFromValue_def
        quoted_def quote_def)


section \<open>Resolved schemas and exclusions\<close>

text \<open>
  A resolution that returns with some fuel returns the same with more: the fuel only bounds
  the depth of the recursion.
\<close>

lemma more_fuel_same_result:
  "resolveColumnsWithPrefix fuel resolvableSchema allSchemas pre = Some r
     \<Longrightarrow> resolveColumnsWithPrefix (fuel + k) resolvableSchema allSchemas pre = Some r"
  "resolveExtensions fuel entity allSchemas pre tables newColumns = Some r
     \<Longrightarrow> resolveExtensions (fuel + k) entity allSchemas pre tables newColumns = Some r"
proof (induction fuel resolvableSchema allSchemas pre and fuel entity allSchemas pre tables newColumns
       arbitrary: r and r rule: resolveColumnsWithPrefix_resolveExtensions.induct)
  case (1 resolvableSchema allSchemas pre)
  then show ?case by simp
next
  case (2 fuel resolvableSchema allSchemas pre)
  then show ?case by simp
next
  case (3 fuel entity allSchemas pre newColumns)
  then show ?case by simp
next
  case (4 fuel entity allSchemas pre table rest newColumns)
  show ?case
  proof (cases "allSchemas (Table table)")
    case None
    with "4.prems" show ?thesis by simp
  next
    case (Some target)
    show ?thesis
    proof (cases "resolveColumnsWithPrefix fuel target allSchemas (extensionString entity pre (Key table))")
      case None
      with "4.prems" Some show ?thesis by simp
    next
      case inner: (Some res)
      note deeper = "4.IH"(1) [OF Some inner]
      show ?thesis
      proof (cases res)
        case (Inl err)
        with "4.prems" Some inner deeper show ?thesis by auto
      next
        case (Inr resolvedColumns)
        with "4.prems" Some inner deeper "4.IH"(2) [OF Some inner Inr] show ?thesis by auto
      qed
    qed
  qed
qed


lemma TrimPrefix_changes_iff: "TrimPrefix s p \<noteq> s \<longleftrightarrow> prefix p s \<and> p \<noteq> []"
  by (auto simp add: TrimPrefix_def prefix_def)

lemma set_resolveDeletableColumns_acc:
  "set (foldl (\<lambda>deletableColumns column.
              if list_ex (\<lambda>exclusion. TrimPrefix (Path column) exclusion \<noteq> Path column) exclusions
              then setAdd deletableColumns (Path column)
              else deletableColumns) acc newColumns)
   = set acc \<union> {Path column | column. column \<in> set newColumns
                    \<and> (\<exists>exclusion\<in>set exclusions. prefix exclusion (Path column) \<and> exclusion \<noteq> [])}"
  by (induction newColumns arbitrary: acc)
     (auto simp add: set_setAdd list_ex_iff TrimPrefix_changes_iff)

lemma set_resolveDeletableColumns:
  "set (resolveDeletableColumns newColumns exclusions)
   = {Path column | column. column \<in> set newColumns
        \<and> (\<exists>exclusion\<in>set exclusions. prefix exclusion (Path column) \<and> exclusion \<noteq> [])}"
  by (simp add: resolveDeletableColumns_def set_resolveDeletableColumns_acc)

lemma resolveColumns_no_excluded_prefix:
  assumes "resolveColumns fuel schema allSchemas = Some (Inr resolvedColumns)"
    and "Exclusions schema = Some exclusions"
    and "column \<in> set resolvedColumns"
    and "exclusion \<in> set exclusions"
    and "exclusion \<noteq> []"
  shows "\<not> prefix exclusion (Path column)"
proof -
  from assms(1,2) obtain newColumns where
    cols: "resolvedColumns =
       filter (\<lambda>column. Path column \<notin> set (resolveDeletableColumns newColumns exclusions)) newColumns
       @ replicate (length newColumns - length (resolveDeletableColumns newColumns exclusions)
                    - length (filter (\<lambda>column. Path column \<notin> set (resolveDeletableColumns newColumns exclusions)) newColumns))
           zeroColumn"
    by (auto simp add: resolveColumns_def Let_def split: option.splits sum.splits if_splits)
  from assms(3) cols consider
    (kept) "column \<in> set newColumns" "Path column \<notin> set (resolveDeletableColumns newColumns exclusions)"
    | (zero) "column = zeroColumn"
    by (auto split: if_splits)
  then show ?thesis
  proof cases
    case kept
    then show ?thesis using assms(4,5) by (auto simp add: set_resolveDeletableColumns)
  next
    case zero
    then show ?thesis using assms(5) by (simp add: zeroColumn_def)
  qed
qed

lemma resolveAll_member:
  assumes "resolveAll fuel allSchemas schemas = Some (Inr resolvedSchemas)"
    and "(table, R) \<in> set resolvedSchemas"
  shows "resolveColumns fuel (originalSchema R) allSchemas = Some (Inr (columns R))"
  using assms
proof (induction schemas arbitrary: resolvedSchemas)
  case Nil
  then show ?case by simp
next
  case (Cons entry rest)
  obtain t schema where entry: "entry = (t, schema)" by (cases entry)
  from Cons.prems(1) entry obtain resolvedColumns restResolved where
    head: "resolveColumns fuel schema allSchemas = Some (Inr resolvedColumns)"
    and tail: "resolveAll fuel allSchemas rest = Some (Inr restResolved)"
    and all: "resolvedSchemas =
        (t, \<lparr>originalSchema = schema, columns = resolvedColumns,
             columnsMap = columnsMapOf resolvedColumns\<rparr>) # restResolved"
    by (auto split: option.splits sum.splits)
  from Cons.prems(2) all consider
    (here) "R = \<lparr>originalSchema = schema, columns = resolvedColumns,
                  columnsMap = columnsMapOf resolvedColumns\<rparr>"
    | (there) "(table, R) \<in> set restResolved"
    by auto
  then show ?case
  proof cases
    case here
    then show ?thesis using head by simp
  next
    case there
    then show ?thesis using Cons.IH [OF tail] by simp
  qed
qed

text \<open>
  Claim C3, amended. For every set of named table schemas for which resolution succeeds,
  every resolved schema \<open>R\<close> and every column \<open>c\<close> of its resolved column list: no
  non-empty string in the exclusions of \<open>R\<close>'s original schema is a prefix of the path of
  \<open>c\<close>.
\<close>

theorem resolved_columns_avoid_exclusions:
  assumes "mapSchemasToResolvedSchemas fuel schemas = Some (Inr resolvedSchemas)"
    and "(table, R) \<in> set resolvedSchemas"
    and "column \<in> set (columns R)"
    and "Exclusions (originalSchema R) = Some exclusions"
    and "exclusion \<in> set exclusions"
    and "exclusion \<noteq> []"
  shows "\<not> prefix exclusion (Path column)"
proof -
  have "resolveColumns fuel (originalSchema R) (map_of schemas) = Some (Inr (columns R))"
    using assms(1,2) unfolding mapSchemasToResolvedSchemas_def by (rule resolveAll_member)
  then show ?thesis
    using assms(4,3,5,6) by (rule resolveColumns_no_excluded_prefix)
qed

text \<open>
  Claim C3 says that no string in the exclusions is a prefix of the path of a resolved
  column. A column is dropped when \<open>strings.TrimPrefix\<close> changes its path, and trimming the
  empty string changes nothing: with the exclusion \<open>""\<close>, which is a prefix of every path,
  the column stays.
\<close>

theorem empty_exclusion_keeps_columns:
  "mapSchemasToResolvedSchemas 1
     [(''companies'',
       \<lparr>Entity = ''company'', Extensions = [], Exclusions = Some [[]],
        Columns = [zeroColumn\<lparr>Path := ''company_name''\<rparr>]\<rparr>)]
   = Some (Inr [(''companies'',
       \<lparr>originalSchema =
          \<lparr>Entity = ''company'', Extensions = [], Exclusions = Some [[]],
           Columns = [zeroColumn\<lparr>Path := ''company_name''\<rparr>]\<rparr>,
        columns = [zeroColumn\<lparr>Path := ''company_name''\<rparr>],
        columnsMap = columnsMapOf [zeroColumn\<lparr>Path := ''company_name''\<rparr>]\<rparr>)])
   \<and> prefix [] (Path (zeroColumn\<lparr>Path := ''company_name''\<rparr>))"
  by (simp add: mapSchemasToResolvedSchemas_def resolveColumns_def resolveColumnWithPrefix_def
        resolveDeletableColumns_def TrimPrefix_def zeroColumn_def)

text \<open>
  The test schemas resolve to the four columns the repository's tests expect, without
  \<open>company_lastModificationDateUtc\<close>.
\<close>

theorem resolved_columns_avoid_exclusions_witness:
  "map_option (map_sum id (map fst))
     (mapSchemasToResolvedSchemas 2
        [(''companies'', companies), (''subfolder/abstract_entity'', abstract_entity)])
   = Some (Inr [''companies'', ''subfolder/abstract_entity''])
   \<and> \<not> prefix ''company_lastModificationDateUtc'' ''company_createDateUtc''"
proof -
  let ?schemas = "[(''companies'', companies), (''subfolder/abstract_entity'', abstract_entity)]"
  let ?cols = "[zeroColumn\<lparr>Path := ''company_companyKey''\<rparr>, zeroColumn\<lparr>Path := ''company_name''\<rparr>,
                zeroColumn\<lparr>Path := ''company_uuid''\<rparr>, zeroColumn\<lparr>Path := ''company_createDateUtc''\<rparr>]"
  let ?R = "\<lparr>originalSchema = companies, columns = ?cols, columnsMap = columnsMapOf ?cols\<rparr>"
  let ?A = "\<lparr>originalSchema = abstract_entity, columns = Columns abstract_entity,
      columnsMap = columnsMapOf (Columns abstract_entity)\<rparr>"
  define m where "m = map_of ?schemas"
  have abs: "resolveColumns 2 abstract_entity m = Some (Inr (Columns abstract_entity))"
    by (simp add: m_def resolveColumns_def abstract_entity_def zeroColumn_def
       resolveColumnWithPrefix_def numeral_2_eq_2)
  have com: "resolveColumns 2 companies m = Some (Inr ?cols)"
    by (simp add: m_def resolveColumns_def companies_def abstract_entity_def zeroColumn_def
       resolveColumnWithPrefix_def extensionString_def afterFirstUnderscore_def
       resolveDeletableColumns_def TrimPrefix_def setAdd_def numeral_2_eq_2)
  have "resolveAll 2 m ?schemas = Some (Inr [(''companies'', ?R), (''subfolder/abstract_entity'', ?A)])"
    by (simp add: abs com)
  then have res: "mapSchemasToResolvedSchemas 2 ?schemas
        = Some (Inr [(''companies'', ?R), (''subfolder/abstract_entity'', ?A)])"
    by (simp only: mapSchemasToResolvedSchemas_def m_def)
  from resolved_columns_avoid_exclusions [OF res, of "''companies''" ?R
      "zeroColumn\<lparr>Path := ''company_createDateUtc''\<rparr>"
      "[''company_lastModificationDateUtc'']" "''company_lastModificationDateUtc''"]
  have "\<not> prefix ''company_lastModificationDateUtc'' ''company_createDateUtc''"
    by (simp add: companies_def)
  then show ?thesis by (simp add: res)
qed


section \<open>Descriptors and identifiers\<close>

lemma toUpperChar_toLowerChar: "isUpper c \<Longrightarrow> toUpperChar (toLowerChar c) = c"
  unfolding toUpperChar_def toLowerChar_def isUpper_def isLower_def less_eq_char_def
  by (simp add: char_of_eq_iff take_bit_eq_mod)

lemma isLower_toLowerChar: "isUpper c \<Longrightarrow> isLower (toLowerChar c)"
  unfolding toLowerChar_def isUpper_def isLower_def less_eq_char_def
  by (simp add: char_of_eq_iff take_bit_eq_mod)

lemma toLowerChar_id: "\<not> isUpper c \<Longrightarrow> toLowerChar c = c"
  by (simp add: toLowerChar_def)

lemma isLower_facts:
  assumes "isLower d"
  shows "\<not> isUpper d" "d \<noteq> CHR ''_''" "d \<noteq> CHR 0x0A"
  using assms unfolding isUpper_def isLower_def less_eq_char_def by auto

lemma underscore_facts: "\<not> isUpper CHR ''_''" "\<not> isLower CHR ''_''"
  unfolding isUpper_def isLower_def less_eq_char_def by auto

lemma isLetterOrUnderscore_not_LF: "isLetterOrUnderscore d \<Longrightarrow> d \<noteq> CHR 0x0A"
  unfolding isLetterOrUnderscore_def isUpper_def isLower_def less_eq_char_def by auto

lemma IdentifierToDescriptor_keep:
  assumes "c \<noteq> CHR ''_'' \<or> (\<forall>d ds. cs = d # ds \<longrightarrow> \<not> isLower d)"
  shows "IdentifierToDescriptor (c # cs) = c # IdentifierToDescriptor cs"
  using assms by (cases cs) auto

text \<open>
  Lengths and capitals through the two conversions: each match of the first adds a
  character, each match of the second removes one and makes one capital.
\<close>

lemma length_insertUnderscores: "length (insertUnderscores x) = length x + insertions x"
  by (induction x rule: insertUnderscores.induct) simp_all

lemma length_IdentifierToDescriptor:
  "length (IdentifierToDescriptor y) + contractions y = length y"
  by (induction y rule: IdentifierToDescriptor.induct) simp_all

lemma isUpper_toUpperChar:
  assumes "isLower d"
  shows "isUpper (toUpperChar d)"
proof -
  from assms have b: "97 \<le> (of_char d :: nat)" "(of_char d :: nat) \<le> 122"
    unfolding isLower_def less_eq_char_def by simp_all
  then have "(of_char d - 32 :: nat) < 256" by linarith
  then have "(of_char d - 32 :: nat) mod 256 = of_char d - 32" by (rule mod_less)
  moreover from b have "65 \<le> (of_char d - 32 :: nat)" "(of_char d - 32 :: nat) \<le> 90"
    by linarith+
  ultimately show ?thesis
    using assms unfolding toUpperChar_def isUpper_def less_eq_char_def by simp
qed

lemma capitals_IdentifierToDescriptor:
  "capitals (IdentifierToDescriptor y) = capitals y + contractions y"
  by (induction y rule: IdentifierToDescriptor.induct)
     (simp_all add: capitals_def isUpper_toUpperChar underscore_facts isLower_facts)

lemma not_isUpper_toLowerChar: "\<not> isUpper (toLowerChar c)"
  using isLower_toLowerChar [of c] isLower_facts(1) [of "toLowerChar c"]
  by (cases "isUpper c") (simp_all add: toLowerChar_id)

lemma capitals_ToLower: "capitals (ToLower s) = 0"
  by (simp add: capitals_def ToLower_def filter_empty_conv not_isUpper_toLowerChar)

lemma capitalsFollowed_skip: "\<not> isUpper d \<Longrightarrow> capitalsFollowed (d # cs) = capitalsFollowed cs"
  by (cases cs) simp_all

lemma noUnderscoreBeforeLower_skip:
  "d \<noteq> CHR ''_'' \<Longrightarrow> noUnderscoreBeforeLower (d # cs) = noUnderscoreBeforeLower cs"
  by (cases cs) simp_all

lemma letter_cases: "isLetterOrUnderscore d \<Longrightarrow> \<not> isUpper d \<Longrightarrow> isLower d \<or> d = CHR ''_''"
  by (simp add: isLetterOrUnderscore_def)

lemma insertions_le_capitals:
  assumes "list_all isLetterOrUnderscore x"
  shows "insertions x \<le> capitals x \<and> (insertions x = capitals x \<longrightarrow> capitalsFollowed x)"
  using assms
proof (induction x rule: insertions.induct)
  case (1 c d cs)
  from "1.prems" have dLF: "d \<noteq> CHR 0x0A" by (simp add: isLetterOrUnderscore_not_LF)
  show ?case
  proof (cases "isUpper c")
    case True
    with dLF "1.IH"(1) "1.prems"
    have ih: "insertions cs \<le> capitals cs"
      "insertions cs = capitals cs \<longrightarrow> capitalsFollowed cs" by simp_all
    show ?thesis
    proof (cases "isUpper d")
      case dU: True
      with True dLF ih show ?thesis by (simp add: capitals_def)
    next
      case dN: False
      with "1.prems" have "isLower d \<or> d = CHR ''_''" by (simp add: letter_cases)
      with True dLF ih dN show ?thesis
        by (auto simp add: capitals_def capitalsFollowed_skip)
    qed
  next
    case False
    with "1.IH"(2) "1.prems"
    have "insertions (d # cs) \<le> capitals (d # cs)"
      "insertions (d # cs) = capitals (d # cs) \<longrightarrow> capitalsFollowed (d # cs)" by simp_all
    with False show ?thesis by (simp add: capitals_def)
  qed
qed (simp_all add: capitals_def)

lemma roundtrip_needs_capitalsFollowed:
  assumes "list_all isLetterOrUnderscore x"
    and "IdentifierToDescriptor (DescriptorToIdentifier x) = x"
  shows "capitalsFollowed x"
proof -
  let ?y = "DescriptorToIdentifier x"
  have len: "length ?y = length x + insertions x"
    by (simp add: DescriptorToIdentifier_def ToLower_def length_insertUnderscores)
  from length_IdentifierToDescriptor [of ?y] assms(2) len
  have "contractions ?y = insertions x" by simp
  moreover from capitals_IdentifierToDescriptor [of ?y] assms(2)
  have "capitals x = contractions ?y"
    by (simp add: DescriptorToIdentifier_def capitals_ToLower)
  ultimately have "insertions x = capitals x" by simp
  with insertions_le_capitals [OF assms(1)] show ?thesis by simp
qed

lemma DescriptorToIdentifier_lower_head:
  assumes "isLower l"
  shows "DescriptorToIdentifier (l # r) = l # DescriptorToIdentifier r"
  using assms
  by (cases r) (simp_all add: DescriptorToIdentifier_def ToLower_def toLowerChar_id isLower_facts)

lemma DescriptorToIdentifier_underscore_head:
  assumes "list_all isLetterOrUnderscore (d # cs)" "capitalsFollowed (d # cs)" "\<not> isLower d"
  shows "\<exists>rest. DescriptorToIdentifier (d # cs) = CHR ''_'' # rest"
proof (cases "isUpper d")
  case True
  with assms(2) obtain e es where cs: "cs = e # es" by (cases cs) auto
  with assms(1) have "e \<noteq> CHR 0x0A" by (simp add: isLetterOrUnderscore_not_LF)
  with True cs show ?thesis
    by (simp add: DescriptorToIdentifier_def ToLower_def toLowerChar_id underscore_facts)
next
  case False
  with assms(1,3) have d: "d = CHR ''_''" by (simp add: isLetterOrUnderscore_def)
  show ?thesis
    by (cases cs) (simp_all add: d DescriptorToIdentifier_def ToLower_def toLowerChar_id underscore_facts)
qed

lemma noUnderscoreBeforeLower_Cons:
  "noUnderscoreBeforeLower (c # r)
     = ((c \<noteq> CHR ''_'' \<or> \<not> startsLower r) \<and> noUnderscoreBeforeLower r)"
  by (cases r) (simp_all add: startsLower_def)

text \<open>What becomes of a character that is no capital, by what follows it.\<close>

lemma no_capital_then_rest:
  assumes "list_all isLetterOrUnderscore r" "capitalsFollowed r" "\<not> isUpper c"
  shows "IdentifierToDescriptor (c # DescriptorToIdentifier r) = c # r
         \<longleftrightarrow> IdentifierToDescriptor (DescriptorToIdentifier r) = r
             \<and> (c \<noteq> CHR ''_'' \<or> \<not> startsLower r)"
proof (cases "c = CHR ''_'' \<and> startsLower r")
  case True
  then obtain d cs where r: "r = d # cs" and d: "isLower d"
    by (cases r) (simp_all add: startsLower_def)
  have "IdentifierToDescriptor (c # DescriptorToIdentifier r)
        = toUpperChar d # IdentifierToDescriptor (DescriptorToIdentifier cs)"
    using True d by (simp add: r DescriptorToIdentifier_lower_head)
  moreover have "toUpperChar d \<noteq> CHR ''_''"
    using isUpper_toUpperChar [OF d] underscore_facts(1) by auto
  ultimately show ?thesis using True by simp
next
  case False
  have "IdentifierToDescriptor (c # DescriptorToIdentifier r)
        = c # IdentifierToDescriptor (DescriptorToIdentifier r)"
  proof (cases "c = CHR ''_''")
    case c: True
    with False have nl: "\<not> startsLower r" by simp
    show ?thesis
    proof (cases r)
      case Nil
      then show ?thesis by (simp add: DescriptorToIdentifier_def ToLower_def)
    next
      case (Cons d cs)
      with nl have "\<not> isLower d" by (simp add: startsLower_def)
      with assms(1,2) obtain rest where "DescriptorToIdentifier r = CHR ''_'' # rest"
        using DescriptorToIdentifier_underscore_head [of d cs] by (auto simp add: Cons)
      then show ?thesis
        by (intro IdentifierToDescriptor_keep) (simp add: underscore_facts)
    qed
  next
    case c: False
    then show ?thesis by (intro IdentifierToDescriptor_keep) simp
  qed
  with False show ?thesis by auto
qed

lemma roundtrip_iff_underscores:
  assumes "list_all isLetterOrUnderscore x" "capitalsFollowed x"
  shows "IdentifierToDescriptor (DescriptorToIdentifier x) = x \<longleftrightarrow> noUnderscoreBeforeLower x"
  using assms
proof (induction x rule: insertUnderscores.induct)
  case (1 c d cs)
  from "1.prems"(1) have dLF: "d \<noteq> CHR 0x0A" by (simp add: isLetterOrUnderscore_not_LF)
  show ?case
  proof (cases "isUpper c")
    case True
    with "1.prems" have dN: "\<not> isUpper d"
      using isLower_facts(1) [of d] underscore_facts(1) by auto
    from "1.prems" dN have cs: "list_all isLetterOrUnderscore cs" "capitalsFollowed cs"
      by (simp_all add: capitalsFollowed_skip)
    have ih: "IdentifierToDescriptor (DescriptorToIdentifier cs) = cs \<longleftrightarrow> noUnderscoreBeforeLower cs"
      using "1.IH"(1) True dLF cs by simp
    have "DescriptorToIdentifier (c # d # cs)
          = CHR ''_'' # toLowerChar c # d # DescriptorToIdentifier cs"
      using True dLF dN
      by (simp add: DescriptorToIdentifier_def ToLower_def toLowerChar_id underscore_facts)
    then have "IdentifierToDescriptor (DescriptorToIdentifier (c # d # cs))
          = c # IdentifierToDescriptor (d # DescriptorToIdentifier cs)"
      using True by (simp add: isLower_toLowerChar toUpperChar_toLowerChar)
    then have "IdentifierToDescriptor (DescriptorToIdentifier (c # d # cs)) = c # d # cs
          \<longleftrightarrow> IdentifierToDescriptor (d # DescriptorToIdentifier cs) = d # cs" by simp
    also have "\<dots> \<longleftrightarrow> IdentifierToDescriptor (DescriptorToIdentifier cs) = cs
                 \<and> (d \<noteq> CHR ''_'' \<or> \<not> startsLower cs)"
      using cs dN by (rule no_capital_then_rest)
    also have "\<dots> \<longleftrightarrow> noUnderscoreBeforeLower (d # cs)"
      using ih by (auto simp add: noUnderscoreBeforeLower_Cons)
    also have "\<dots> \<longleftrightarrow> noUnderscoreBeforeLower (c # d # cs)"
      using True underscore_facts(1) by auto
    finally show ?thesis .
  next
    case False
    have ih: "IdentifierToDescriptor (DescriptorToIdentifier (d # cs)) = d # cs
              \<longleftrightarrow> noUnderscoreBeforeLower (d # cs)"
      using "1.IH"(2) False "1.prems" by simp
    have "DescriptorToIdentifier (c # d # cs) = c # DescriptorToIdentifier (d # cs)"
      using False by (simp add: DescriptorToIdentifier_def ToLower_def toLowerChar_id)
    then have "IdentifierToDescriptor (DescriptorToIdentifier (c # d # cs)) = c # d # cs
          \<longleftrightarrow> IdentifierToDescriptor (c # DescriptorToIdentifier (d # cs)) = c # d # cs" by simp
    also have "\<dots> \<longleftrightarrow> IdentifierToDescriptor (DescriptorToIdentifier (d # cs)) = d # cs
                 \<and> (c \<noteq> CHR ''_'' \<or> \<not> startsLower (d # cs))"
      using "1.prems" False by (intro no_capital_then_rest) simp_all
    also have "\<dots> \<longleftrightarrow> noUnderscoreBeforeLower (c # d # cs)"
      using ih by (auto simp add: startsLower_def)
    finally show ?thesis .
  qed
qed (simp_all add: DescriptorToIdentifier_def ToLower_def toLowerChar_id)

text \<open>
  Claim C2, amended. For every string \<open>x\<close> of ASCII letters and underscores, with no
  leading underscore and no doubled underscore:
  \<open>IdentifierToDescriptor (DescriptorToIdentifier x) = x\<close> holds exactly when every
  upper-case letter of \<open>x\<close> is directly followed by a lower-case letter or an underscore and
  no underscore of \<open>x\<close> is directly followed by a lower-case letter.
\<close>

theorem descriptor_roundtrip_exactly:
  assumes "list_all isLetterOrUnderscore x"
    and "\<not> prefix ''_'' x"
    and "\<not> Contains x ''__''"
  shows "IdentifierToDescriptor (DescriptorToIdentifier x) = x
         \<longleftrightarrow> capitalsFollowed x \<and> noUnderscoreBeforeLower x"
  using roundtrip_needs_capitalsFollowed [OF assms(1)] roundtrip_iff_underscores [OF assms(1)]
  by blast

text \<open>Two descriptors that come back: \<open>planB_Name\<close> and \<open>personKey\<close>.\<close>

theorem descriptor_roundtrip_exactly_witness:
  "list_all isLetterOrUnderscore ''planB_Name'' \<and> \<not> prefix ''_'' ''planB_Name''
   \<and> \<not> Contains ''planB_Name'' ''__''
   \<and> capitalsFollowed ''planB_Name'' \<and> noUnderscoreBeforeLower ''planB_Name''
   \<and> DescriptorToIdentifier ''planB_Name'' = ''plan_b__name''
   \<and> IdentifierToDescriptor (DescriptorToIdentifier ''planB_Name'') = ''planB_Name''
   \<and> DescriptorToIdentifier ''personKey'' = ''person_key''
   \<and> IdentifierToDescriptor (DescriptorToIdentifier ''personKey'') = ''personKey''"
proof -
  have h: "list_all isLetterOrUnderscore ''planB_Name''" "\<not> prefix ''_'' ''planB_Name''"
    "\<not> Contains ''planB_Name'' ''__''"
    by (simp_all add: isLetterOrUnderscore_def isUpper_def isLower_def)
  have k: "list_all isLetterOrUnderscore ''personKey''" "\<not> prefix ''_'' ''personKey''"
    "\<not> Contains ''personKey'' ''__''"
    by (simp_all add: isLetterOrUnderscore_def isUpper_def isLower_def)
  have c: "capitalsFollowed ''planB_Name''" "noUnderscoreBeforeLower ''planB_Name''"
    "capitalsFollowed ''personKey''" "noUnderscoreBeforeLower ''personKey''"
    by (simp_all add: isUpper_def isLower_def)
  have d: "DescriptorToIdentifier ''planB_Name'' = ''plan_b__name''"
    "DescriptorToIdentifier ''personKey'' = ''person_key''"
    by (simp_all add: DescriptorToIdentifier_def char_eval)
  from descriptor_roundtrip_exactly [OF h] descriptor_roundtrip_exactly [OF k] c d h
  show ?thesis by simp
qed


text \<open>
  Claim C2 says that \<open>IdentifierToDescriptor (DescriptorToIdentifier x) = x\<close> for every
  string of ASCII letters and underscores with no leading and no doubled underscore.
  \<open>IdentifierToDescriptor\<close> turns every underscore before a lower-case letter into a capital,
  also the one that separates two segments of a path, so \<open>person_firstName\<close> comes back as
  \<open>personFirstName\<close>; and a run of capitals loses its case, so \<open>personID\<close> comes back as
  \<open>personId\<close>.
\<close>

theorem descriptor_roundtrip_fails:
  "list_all isLetterOrUnderscore ''person_firstName'' \<and> \<not> prefix ''_'' ''person_firstName''
   \<and> \<not> Contains ''person_firstName'' ''__''
   \<and> DescriptorToIdentifier ''person_firstName'' = ''person_first_name''
   \<and> IdentifierToDescriptor (DescriptorToIdentifier ''person_firstName'') = ''personFirstName''
   \<and> list_all isLetterOrUnderscore ''personID'' \<and> \<not> prefix ''_'' ''personID''
   \<and> \<not> Contains ''personID'' ''__''
   \<and> DescriptorToIdentifier ''personID'' = ''person_id''
   \<and> IdentifierToDescriptor (DescriptorToIdentifier ''personID'') = ''personId''"
  by (simp add: isLetterOrUnderscore_def DescriptorToIdentifier_def char_eval)

text \<open>The two conversions of the specification's scenario.\<close>

lemma descriptor_examples:
  "DescriptorToIdentifier ''person_organizationalUnit_personKey''
     = ''person_organizational_unit_person_key''"
  "IdentifierToDescriptor ''person_key'' = ''personKey''"
  by (simp_all add: DescriptorToIdentifier_def char_eval)


section \<open>Sorting with a comparison function\<close>

lemma entriesAreTheSame_iff: "entriesAreTheSame a b \<longleftrightarrow> a = b"
  by (auto simp add: entriesAreTheSame_def list_all_iff list_eq_iff_zip_eq)

lemma set_sink: "set (sink lt ys x) = insert x (set ys)"
  by (induction ys) auto

lemma distinct_sink: "distinct ys \<Longrightarrow> x \<notin> set ys \<Longrightarrow> distinct (sink lt ys x)"
  by (induction ys) (auto simp add: set_sink)

lemma sink_cong:
  assumes "\<forall>y\<in>set ys. lt x y = lt' x y"
  shows "sink lt ys x = sink lt' ys x"
  using assms by (induction ys) auto

lemma foldl_sink_cong:
  assumes "distinct (acc @ keys)"
    and "\<forall>x\<in>set (acc @ keys). \<forall>y\<in>set (acc @ keys). x \<noteq> y \<longrightarrow> lt x y = lt' x y"
  shows "foldl (sink lt) acc keys = foldl (sink lt') acc keys"
  using assms
proof (induction keys arbitrary: acc)
  case Nil
  then show ?case by simp
next
  case (Cons k keys)
  have step: "sink lt acc k = sink lt' acc k"
    using Cons.prems by (intro sink_cong) auto
  have "distinct (sink lt' acc k @ keys)"
    using Cons.prems(1) by (auto simp add: distinct_sink set_sink)
  moreover have "set (sink lt' acc k @ keys) = set (acc @ k # keys)"
    by (auto simp add: set_sink)
  ultimately have "foldl (sink lt) (sink lt' acc k) keys = foldl (sink lt') (sink lt' acc k) keys"
    using Cons.prems(2) by (intro Cons.IH) simp_all
  then show ?case by (simp add: step)
qed

lemma sortSlice_cong:
  assumes "distinct keys"
    and "\<forall>x\<in>set keys. \<forall>y\<in>set keys. x \<noteq> y \<longrightarrow> lt x y = lt' x y"
  shows "sortSlice lt keys = sortSlice lt' keys"
  using foldl_sink_cong [of "[]" keys lt lt'] assms by (simp add: sortSlice_def)

lemma set_foldl_sink: "set (foldl (sink lt) acc keys) = set acc \<union> set keys"
  by (induction keys arbitrary: acc) (auto simp add: set_sink)

lemma length_sink: "length (sink lt ys x) = Suc (length ys)"
  by (induction ys) auto

lemma length_foldl_sink: "length (foldl (sink lt) acc keys) = length acc + length keys"
  by (induction keys arbitrary: acc) (auto simp add: length_sink)

lemma set_sortSlice: "set (sortSlice lt keys) = set keys"
  by (simp add: sortSlice_def set_foldl_sink)

lemma length_sortSlice: "length (sortSlice lt keys) = length keys"
  by (simp add: sortSlice_def length_foldl_sink)

lemma mset_sink: "mset (sink lt ys x) = add_mset x (mset ys)"
  by (induction ys) auto

lemma mset_foldl_sink: "mset (foldl (sink lt) acc keys) = mset acc + mset keys"
  by (induction keys arbitrary: acc) (auto simp add: mset_sink)

lemma mset_sortSlice: "mset (sortSlice lt keys) = mset keys"
  by (simp add: sortSlice_def mset_foldl_sink)

lemma descending_sink:
  fixes f :: "'a \<Rightarrow> 'b::linorder"
  assumes "sorted_wrt (\<lambda>a b. f b \<le> f a) ys"
  shows "sorted_wrt (\<lambda>a b. f b \<le> f a) (sink (\<lambda>a b. f a < f b) ys x)"
  using assms by (induction ys) (auto simp add: set_sink)

lemma descending_foldl_sink:
  fixes f :: "'a \<Rightarrow> 'b::linorder"
  assumes "sorted_wrt (\<lambda>a b. f b \<le> f a) acc"
  shows "sorted_wrt (\<lambda>a b. f b \<le> f a) (foldl (sink (\<lambda>a b. f a < f b)) acc keys)"
  using assms by (induction keys arbitrary: acc) (simp_all add: descending_sink)

lemma sorted_sortSlice:
  fixes f :: "'a \<Rightarrow> 'b::linorder"
  shows "sorted (map f (sortSlice (\<lambda>a b. f a < f b) keys))"
proof -
  have "sorted_wrt (\<lambda>a b. f b \<le> f a) (foldl (sink (\<lambda>a b. f a < f b)) [] keys)"
    by (rule descending_foldl_sink) simp
  then show ?thesis
    by (simp add: sortSlice_def sorted_map sorted_wrt_rev)
qed

lemma sortSlice_eq_sort_key:
  fixes f :: "'a \<Rightarrow> 'b::linorder"
  assumes "inj_on f (set keys)"
  shows "sortSlice (\<lambda>a b. f a < f b) keys = sort_key f keys"
  using sort_key_inj_key_eq [of keys "sortSlice (\<lambda>a b. f a < f b) keys" f] assms
  by (simp add: mset_sortSlice sorted_sortSlice)

lemma distinct_sortSlice: "distinct (sortSlice lt keys) = distinct keys"
  using mset_sortSlice [of lt keys] by (metis mset_eq_imp_distinct_iff)


section \<open>Ordering by translated enums\<close>

lemma distinct_Entries: "distinct (map fst enum) \<Longrightarrow> distinct (map EnumKey (Entries enum))"
  by (simp add: Entries_def comp_def case_prod_beta)

lemma length_Entries: "length (Entries enum) = length enum"
  by (simp add: Entries_def)

lemma set_Entries:
  "set (Entries enum) = (\<lambda>(k, v). \<lparr>EnumKey = k, TranslationKey = v\<rparr>) ` set enum"
  by (simp add: Entries_def)

text \<open>
  Claim C7, amended. For every enum-sorted column whose enum has at least two keys and whose
  translations under the active locale, with the sorter's suffix, sort in exactly the
  reverse of the enum keys' lexicographic order (of two entries, the one with the smaller
  key has the greater translation), the enum sorter returns a direct ordering on the path
  with the requested direction reversed and no sort keys.
\<close>

theorem reversed_translation_order_is_direct:
  assumes enum: "mapper (Type column) = Some enum"
    and keys: "distinct (map fst enum)"
    and two: "2 \<le> length enum"
    and reversed: "\<forall>(k1, t1)\<in>set enum. \<forall>(k2, t2)\<in>set enum. k1 < k2 \<longrightarrow>
        fst (Translator_Translate translator locale (t2 @ translationSuffix))
          < fst (Translator_Translate translator locale (t1 @ translationSuffix))"
  shows "orderColumnWithSortFunction mapper path column dir locale
           (\<lambda>enum locale reverse.
              entriesSortedByTranslationWithSuffix translator enum locale translationSuffix reverse)
         = Inr \<lparr>RPath = path, Dir = Reverse dir, SortKeys = None\<rparr>"
proof -
  let ?E = "Entries enum"
  let ?T = "translated translator locale translationSuffix"
  let ?original = "entriesSortedByKey enum"
  let ?sorted = "entriesSortedByTranslationWithSuffix translator enum locale translationSuffix False"
  let ?rsorted = "entriesSortedByTranslationWithSuffix translator enum locale translationSuffix True"
  have dk: "distinct (map EnumKey ?E)" using keys by (rule distinct_Entries)
  then have dE: "distinct ?E" by (rule distinct_map [THEN iffD1, THEN conjunct1])
  have inj: "inj_on EnumKey (set ?E)" using dk by (simp add: distinct_map)
  have rv: "?T b < ?T a" if "a \<in> set ?E" "b \<in> set ?E" "EnumKey a < EnumKey b" for a b
    using that reversed by (auto simp add: set_Entries translated_def) blast
  have agree: "(True \<noteq> (?T a < ?T b)) = (EnumKey a < EnumKey b)"
    if a: "a \<in> set ?E" and b: "b \<in> set ?E" and ab: "a \<noteq> b" for a b
  proof -
    from inj a b ab have "EnumKey a \<noteq> EnumKey b" by (auto simp add: inj_on_def)
    then consider "EnumKey a < EnumKey b" | "EnumKey b < EnumKey a" by (auto simp add: neq_iff)
    then show ?thesis
    proof cases
      case 1
      with rv [OF a b] show ?thesis by auto
    next
      case 2
      with rv [OF b a] show ?thesis by auto
    qed
  qed
  have second: "?rsorted = ?original"
    unfolding entriesSortedByTranslationWithSuffix_def entriesSortedByKey_def
    using dE agree by (intro sortSlice_cong) auto
  have "?sorted \<noteq> ?original"
  proof
    assume same: "?sorted = ?original"
    have "length ?original = length enum"
      by (simp add: entriesSortedByKey_def length_sortSlice length_Entries)
    with two obtain a b rest where shape: "?original = a # b # rest"
      by (cases ?original; cases "tl ?original") auto
    have mem: "set ?original = set ?E"
      by (simp add: entriesSortedByKey_def set_sortSlice)
    have "distinct ?original"
      using dE by (simp add: entriesSortedByKey_def distinct_sortSlice)
    with shape have ab: "a \<noteq> b" by auto
    from shape mem have a: "a \<in> set ?E" and b: "b \<in> set ?E" by auto
    have "sorted (map EnumKey ?original)"
      unfolding entriesSortedByKey_def by (rule sorted_sortSlice)
    with shape have "EnumKey a \<le> EnumKey b" by simp
    moreover from inj a b ab have "EnumKey a \<noteq> EnumKey b" by (auto simp add: inj_on_def)
    ultimately have "EnumKey a < EnumKey b" by simp
    then have gt: "?T b < ?T a" by (rule rv [OF a b])
    have "?sorted = sortSlice (\<lambda>a b. ?T a < ?T b) ?E"
      by (simp add: entriesSortedByTranslationWithSuffix_def)
    then have "sorted (map ?T ?sorted)"
      by (simp add: sorted_sortSlice)
    with same shape have "?T a \<le> ?T b" by simp
    with gt show False by simp
  qed
  then show ?thesis
    using enum second
    by (simp add: orderColumnWithSortFunction_def EnumMapper_Enum_def Let_def
          entriesAreTheSame_iff Direct_OrderColumn_def)
qed

lemmas translate_eval = Translator_Translate_def Translator_Language_def
  LanguageCatalog_Translate_def index_def translated_def

text \<open>An ascending request on the \<open>Gender\<close> column under \<open>de\<close> is ordered \<open>DESC\<close>.\<close>

theorem reversed_translation_order_is_direct_witness:
  "Sorter_OrderColumn (EnumSorter genderMapper genderTranslator) ''person.gender''
     (zeroColumn\<lparr>Path := ''person_gender'', Type := ''Gender''\<rparr>) OrderAsc ''de''
   = Inr \<lparr>RPath = ''person.gender'', Dir = OrderDesc, SortKeys = None\<rparr>
   \<and> OrderColumn ''person.gender'' (zeroColumn\<lparr>Path := ''person_gender'', Type := ''Gender''\<rparr>)
        (EnumSorter genderMapper genderTranslator)
        \<lparr>orderPath = ''person_gender'', direction = OrderAsc, sortKeys = []\<rparr> ''de''
      = Inr ''person.gender DESC''"
proof -
  let ?enum = "[(''F'', ''enum.gender.f''), (''M'', ''enum.gender.m'')]"
  let ?col = "zeroColumn\<lparr>Path := ''person_gender'', Type := ''Gender''\<rparr>"
  have enum: "genderMapper (Type ?col) = Some ?enum"
    by (simp add: genderMapper_def zeroColumn_def)
  have reversed: "\<forall>(k1, t1)\<in>set ?enum. \<forall>(k2, t2)\<in>set ?enum. k1 < k2 \<longrightarrow>
        fst (Translator_Translate genderTranslator ''de'' (t2 @ []))
          < fst (Translator_Translate genderTranslator ''de'' (t1 @ []))"
    by (simp add: genderTranslator_def translate_eval)
  have direct: "Sorter_OrderColumn (EnumSorter genderMapper genderTranslator) ''person.gender''
       ?col OrderAsc ''de''
     = Inr \<lparr>RPath = ''person.gender'', Dir = OrderDesc, SortKeys = None\<rparr>"
    using reversed_translation_order_is_direct
      [of genderMapper ?col ?enum genderTranslator "''de''" "[]" "''person.gender''" OrderAsc,
       OF enum _ _ reversed]
    by (simp add: Reverse_def)
  then show ?thesis
    by (simp add: OrderColumn_def CommonQueryBuilder_OrderColumn_def OrderDesc_def)
qed

text \<open>
  Claim C7 says that whenever the translations sort in exactly the reverse of the enum
  keys, the direction is reversed. The sorter first tests whether the two orders are the
  same, and for an enum with one key they are the same and the reverse of each other: the
  requested direction is kept.
\<close>

theorem single_entry_enum_keeps_direction:
  "entriesSortedByTranslationWithSuffix countryTranslator [(''DE'', ''enum.country.de'')] ''de'' [] False
     = rev (entriesSortedByKey [(''DE'', ''enum.country.de'')])
   \<and> Sorter_OrderColumn (EnumSorter countryMapper countryTranslator) ''company.country''
        (zeroColumn\<lparr>Path := ''company_country'', Type := ''Country''\<rparr>) OrderAsc ''de''
      = Inr \<lparr>RPath = ''company.country'', Dir = OrderAsc, SortKeys = None\<rparr>
   \<and> OrderColumn ''company.country'' (zeroColumn\<lparr>Path := ''company_country'', Type := ''Country''\<rparr>)
        (EnumSorter countryMapper countryTranslator)
        \<lparr>orderPath = ''company_country'', direction = OrderAsc, sortKeys = []\<rparr> ''de''
      = Inr ''company.country ASC''"
  by (simp add: countryMapper_def zeroColumn_def orderColumnWithSortFunction_def
        EnumMapper_Enum_def entriesSortedByKey_def entriesSortedByTranslationWithSuffix_def
        sortSlice_def Entries_def entriesAreTheSame_def Direct_OrderColumn_def
        OrderColumn_def CommonQueryBuilder_OrderColumn_def OrderAsc_def)

text \<open>An enum whose translations sort in neither order is ordered by a \<open>CASE\<close> expression.\<close>

lemma scrambled_translation_order_uses_sort_keys:
  "OrderColumn ''person.gender'' (zeroColumn\<lparr>Path := ''person_gender'', Type := ''Gender''\<rparr>)
     (EnumSorter [''Gender'' \<mapsto> [(''D'', ''d''), (''F'', ''f''), (''M'', ''m'')]]
                 [''de'' \<mapsto> [''d'' \<mapsto> ''divers'', ''f'' \<mapsto> ''weiblich'', ''m'' \<mapsto> ''maennlich'']])
     \<lparr>orderPath = ''person_gender'', direction = OrderAsc, sortKeys = []\<rparr> ''de''
   = Inr (''CASE person.gender WHEN '' @ quoted ''D'' @ '' THEN 0 WHEN '' @ quoted ''M''
          @ '' THEN 1 WHEN '' @ quoted ''F'' @ '' THEN 2 ELSE -1 END ASC'')"
  by (simp add: zeroColumn_def orderColumnWithSortFunction_def
        EnumMapper_Enum_def entriesSortedByKey_def entriesSortedByTranslationWithSuffix_def
        sortSlice_def Entries_def entriesAreTheSame_def Direct_OrderColumn_def
        OrderColumn_def CommonQueryBuilder_OrderColumnByArray_def OrderAsc_def
        translate_eval enumerate_eq_zip decimal.simps char_eval)


end
